theory Spec2Isabelle
  imports Main "HOL-Library.Sublist" "HOL-Library.AList" "HOL-Library.Code_Target_Nat"
begin

chapter \<open>The embedding of the source\<close>

section \<open>Strings as the JavaScript source uses them\<close>

text \<open>
  Subject names, unit names and question texts are JavaScript strings. They are modelled
  as \<^typ>\<open>string\<close>; an absent (\<^verbatim>\<open>undefined\<close>, \<^verbatim>\<open>null\<close>) string argument is the empty
  string wherever the source writes \<^verbatim>\<open>x || ''\<close> or tests \<^verbatim>\<open>!x\<close>, since both treat the
  empty string and an absent value alike.
\<close>

text \<open>\<^verbatim>\<open>String.prototype.toLowerCase\<close> on the ASCII letters; every keyword the source
  searches for is made of ASCII lower-case letters and spaces.\<close>

definition toLowerChar :: "char \<Rightarrow> char" where
  "toLowerChar c =
     (let n = (of_char c :: nat) in if 65 \<le> n \<and> n \<le> 90 then char_of (n + 32) else c)"

definition toLowerCase :: "string \<Rightarrow> string" where
  "toLowerCase s = map toLowerChar s"

text \<open>\<^verbatim>\<open>String.prototype.includes\<close>: the keyword occurs somewhere in the string as a
  contiguous run of characters.\<close>

fun includes_str :: "string \<Rightarrow> string \<Rightarrow> bool" where
  "includes_str [] k = (k = [])"
| "includes_str (c # cs) k = (prefix k (c # cs) \<or> includes_str cs k)"

section \<open>aiService.js: the generation profile of a subject\<close>

text \<open>
  \<^verbatim>\<open>
  function selectModelForClass(className) {
      const normalizedClass = (className || '').toLowerCase();
      const historyKeywords = ['history', 'government', 'economics', 'psychology',
                               'sociology', 'human geography', 'world studies'];
      const englishKeywords = ['english', 'literature'];
      const matchesKeyword = (keywords) =>
          keywords.some(keyword => normalizedClass.includes(keyword.toLowerCase()));
      if (matchesKeyword(historyKeywords) || matchesKeyword(englishKeywords) ||
          normalizedClass.includes('economics') ||
          normalizedClass.includes('computer science principles')) {
          return 'gpt-4.1-mini';
      }
      return 'gpt-5-mini';
  }
  \<close>
\<close>

definition historyKeywords :: "string list" where
  "historyKeywords =
     [''history'', ''government'', ''economics'', ''psychology'', ''sociology'',
      ''human geography'', ''world studies'']"

definition englishKeywords :: "string list" where
  "englishKeywords = [''english'', ''literature'']"

definition matchesKeyword :: "string \<Rightarrow> string list \<Rightarrow> bool" where
  "matchesKeyword normalizedClass keywords =
     list_ex (\<lambda>keyword. includes_str normalizedClass (toLowerCase keyword)) keywords"

definition selectModelForClass :: "string \<Rightarrow> string" where
  "selectModelForClass className =
     (let normalizedClass = toLowerCase className in
      if matchesKeyword normalizedClass historyKeywords \<or>
         matchesKeyword normalizedClass englishKeywords \<or>
         includes_str normalizedClass ''economics'' \<or>
         includes_str normalizedClass ''computer science principles''
      then ''gpt-4.1-mini''
      else ''gpt-5-mini'')"

section \<open>JavaScript numbers: the arithmetic of the mastery percentage\<close>

text \<open>
  The route \<^verbatim>\<open>POST /record-attempt\<close> computes
  \<^verbatim>\<open>Math.round((progressEntry.correctAttempts / progressEntry.totalAttempts) * 100)\<close>.
  JavaScript numbers are IEEE-754 binary64 values: the quotient is rounded to the nearest
  value with a 53-bit significand (ties to the even significand), and so is the product
  with 100, before \<^verbatim>\<open>Math.round\<close> takes the nearest integer (ties upwards). The counters
  are natural numbers below \<open>2\<^sup>5\<^sup>3\<close>, held exactly. A non-negative binary64 value is
  written here as a pair \<open>(m, p)\<close> standing for \<open>m / 2\<^sup>p\<close>.
\<close>

text \<open>The integer nearest to \<open>a / b\<close>, a tie going to the even one.\<close>

definition rne :: "nat \<Rightarrow> nat \<Rightarrow> nat" where
  "rne a b =
     (let q = a div b; r = a mod b in
      if 2 * r < b then q else if b < 2 * r then q + 1 else if even q then q else q + 1)"

text \<open>The least \<open>p\<close> from which \<open>c / t \<sqdot> 2\<^sup>p\<close> has reached \<open>2\<^sup>5\<^sup>2\<close>: the exponent that
  gives the quotient a 53-bit significand.\<close>

function find_exp :: "nat \<Rightarrow> nat \<Rightarrow> nat \<Rightarrow> nat" where
  "find_exp c t p = (if c = 0 \<or> t * 2 ^ 52 \<le> c * 2 ^ p then p else find_exp c t (p + 1))"
  by pat_completeness auto
termination
proof (relation "measure (\<lambda>(c, t, p). t * 2 ^ 52 - c * 2 ^ p)")
  show "wf (measure (\<lambda>(c, t, p). t * 2 ^ 52 - c * 2 ^ p))" by simp
next
  fix c t p :: nat
  assume "\<not> (c = 0 \<or> t * 2 ^ 52 \<le> c * 2 ^ p)"
  then have c: "0 < c" and lt: "c * 2 ^ p < t * 2 ^ 52" by auto
  have "c * 2 ^ p < c * 2 ^ (p + 1)" using c by simp
  with lt have "t * 2 ^ 52 - c * 2 ^ (p + 1) < t * 2 ^ 52 - c * 2 ^ p"
    by (rule_tac diff_less_mono2)
  then show "((c, t, p + 1), (c, t, p)) \<in> measure (\<lambda>(c, t, p). t * 2 ^ 52 - c * 2 ^ p)"
    by (simp only: in_measure prod.case)
qed

declare find_exp.simps [simp del]

text \<open>The binary64 quotient \<^verbatim>\<open>c / t\<close> of two counters, \<open>t\<close> positive.\<close>

definition js_div :: "nat \<Rightarrow> nat \<Rightarrow> nat \<times> nat" where
  "js_div c t = (if c = 0 then (0, 0) else let p = find_exp c t 0 in (rne (c * 2 ^ p) t, p))"

text \<open>How many low bits a product has beyond 53.\<close>

function norm_shift :: "nat \<Rightarrow> nat" where
  "norm_shift n = (if n < 2 ^ 53 then 0 else norm_shift (n div 2) + 1)"
  by pat_completeness auto
termination
proof (relation "measure (\<lambda>n. n)")
  show "wf (measure (\<lambda>n::nat. n))" by simp
next
  fix n :: nat
  assume "\<not> n < 2 ^ 53"
  then have "0 < n" by (cases "n = 0") simp_all
  then show "(n div 2, n) \<in> measure (\<lambda>n. n)" by simp
qed

declare norm_shift.simps [simp del]

text \<open>The binary64 product of a value \<open>(m, p)\<close> with a small integer \<open>k\<close>.\<close>

definition js_mul :: "nat \<times> nat \<Rightarrow> nat \<Rightarrow> nat \<times> nat" where
  "js_mul x k =
     (case x of (m, p) \<Rightarrow>
        let n = m * k; s = norm_shift n in (rne n (2 ^ s) * 2 ^ s, p))"

text \<open>\<^verbatim>\<open>Math.round\<close>: the nearest integer, a tie going upwards.\<close>

definition Math_round :: "nat \<times> nat \<Rightarrow> nat" where
  "Math_round x = (case x of (m, p) \<Rightarrow> (2 * m + 2 ^ p) div 2 ^ (p + 1))"

text \<open>\<^verbatim>\<open>Math.round((c / t) * 100)\<close>. With \<open>t = 0\<close> the quotient is \<^verbatim>\<open>NaN\<close> or
  \<^verbatim>\<open>Infinity\<close> and the result is no integer: \<^const>\<open>None\<close>.\<close>

definition percentage :: "nat \<Rightarrow> nat \<Rightarrow> nat option" where
  "percentage c t = (if t = 0 then None else Some (Math_round (js_mul (js_div c t) 100)))"

section \<open>models/User.js: progress entries, attempts and users\<close>

text \<open>
  The schemas \<^verbatim>\<open>progressSchema\<close>, \<^verbatim>\<open>questionAttemptSchema\<close> and \<^verbatim>\<open>userSchema\<close>, with the
  fields the route \<^verbatim>\<open>POST /record-attempt\<close> reads or writes. The dates
  (\<^verbatim>\<open>lastAttemptAt\<close>, \<^verbatim>\<open>attemptedAt\<close>) are left out: nothing below depends on the clock.
  Both \<^verbatim>\<open>apClass\<close> and \<^verbatim>\<open>unit\<close> are declared \<^verbatim>\<open>trim: true\<close>, so Mongoose trims
  them when it casts a value into a subdocument.
\<close>

text \<open>
  \<^verbatim>\<open>String.prototype.trim\<close> strips white space and line terminators. A character is a code
  below 256 here, and of these the ones stripped are 9 to 13 (tab, line feed, vertical tab,
  form feed, carriage return), 32 (space) and 160 (no-break space).
\<close>

definition isSpace :: "char \<Rightarrow> bool" where
  "isSpace c = (let n = (of_char c :: nat) in n = 32 \<or> n = 160 \<or> (9 \<le> n \<and> n \<le> 13))"

definition trim :: "string \<Rightarrow> string" where
  "trim s = rev (dropWhile isSpace (rev (dropWhile isSpace s)))"

record progressEntry =
  pe_apClass :: string
  pe_unit :: string
  completed :: bool
  mastery :: nat
  totalAttempts :: nat
  correctAttempts :: nat

record questionAttempt =
  qa_questionId :: string
  qa_apClass :: string
  qa_unit :: string
  selectedAnswer :: string
  wasCorrect :: bool
  timeTakenMs :: int

record user =
  progress :: "progressEntry list"
  questionHistory :: "questionAttempt list"

text \<open>Casting a plain object into a subdocument of the array: a new object, with the
  setters of the schema applied.\<close>

definition castProgress :: "progressEntry \<Rightarrow> progressEntry" where
  "castProgress p = p\<lparr>pe_apClass := trim (pe_apClass p), pe_unit := trim (pe_unit p)\<rparr>"

definition castAttempt :: "questionAttempt \<Rightarrow> questionAttempt" where
  "castAttempt a = a\<lparr>qa_apClass := trim (qa_apClass a), qa_unit := trim (qa_unit a)\<rparr>"

text \<open>The validators the schemas run when \<^verbatim>\<open>user.save()\<close> is called: required strings
  are not empty, \<^verbatim>\<open>selectedAnswer\<close> is one of the four letters, \<^verbatim>\<open>timeTakenMs\<close> is at
  least 0, \<^verbatim>\<open>mastery\<close> lies between 0 and 100.\<close>

definition validAttempt :: "questionAttempt \<Rightarrow> bool" where
  "validAttempt a \<longleftrightarrow>
     qa_questionId a \<noteq> [] \<and> qa_apClass a \<noteq> [] \<and> qa_unit a \<noteq> [] \<and>
     selectedAnswer a \<in> set [''A'', ''B'', ''C'', ''D''] \<and> 0 \<le> timeTakenMs a"

definition validProgress :: "progressEntry \<Rightarrow> bool" where
  "validProgress p \<longleftrightarrow> pe_apClass p \<noteq> [] \<and> pe_unit p \<noteq> [] \<and> mastery p \<le> 100"

section \<open>routes/api/auth.js: recording an attempt\<close>

text \<open>
  \<^verbatim>\<open>
  router.post('/record-attempt', verifyToken, async (req, res) => {
    try {
      const { question, questionId: existingQuestionId, apClass, unit, selectedAnswer,
              wasCorrect, timeTakenMs } = req.body;
      if (!apClass || !unit || !selectedAnswer || typeof wasCorrect !== 'boolean') {
        return res.status(400).json({ error: 'Missing required fields: ...' });
      }
      if (!existingQuestionId) {
        return res.status(400).json({ error: 'questionId is required (...)' });
      }
      const questionId = existingQuestionId;
      const user = await User.findById(req.userId);
      if (!user) { return res.status(404).json({ error: 'User not found' }); }
      user.questionHistory.push({ questionId, apClass, unit, selectedAnswer, wasCorrect,
                                  timeTakenMs: timeTakenMs || 0, attemptedAt: new Date() });
      let progressEntry = user.progress.find(p => p.apClass === apClass && p.unit === unit);
      if (!progressEntry) {
        progressEntry = { apClass, unit, completed: false, mastery: 0,
                          totalAttempts: 0, correctAttempts: 0 };
        user.progress.push(progressEntry);
      }
      progressEntry.totalAttempts++;
      if (wasCorrect) { progressEntry.correctAttempts++; }
      progressEntry.mastery = Math.round(
        (progressEntry.correctAttempts / progressEntry.totalAttempts) * 100);
      progressEntry.lastAttemptAt = new Date();
      await user.save();
      res.json({ message: 'Attempt recorded successfully', questionId,
                 mastery: progressEntry.mastery, totalAttempts: progressEntry.totalAttempts });
    } catch (err) {
      res.status(500).json({ error: 'Failed to record attempt' });
    }
  });
  \<close>
  The request body is a record of its fields; an absent string field is the empty string
  (the route tests them with \<^verbatim>\<open>!x\<close>), \<^verbatim>\<open>wasCorrect\<close> is \<^const>\<open>None\<close> when it is not a
  boolean, and an absent \<^verbatim>\<open>timeTakenMs\<close> is 0 (\<^verbatim>\<open>timeTakenMs || 0\<close>). The database holds
  the user of the request or does not (\<^const>\<open>None\<close>); \<open>save_ok\<close> says whether the write of
  \<^verbatim>\<open>user.save()\<close> reaches the database.
\<close>

record attemptBody =
  b_questionId :: string
  b_apClass :: string
  b_unit :: string
  b_selectedAnswer :: string
  b_wasCorrect :: "bool option"
  b_timeTakenMs :: int

datatype httpError = Status400 string | Status404 string | Status500 string

record attemptResponse =
  r_questionId :: string
  r_mastery :: nat
  r_totalAttempts :: nat

text \<open>Replacing the first element that satisfies \<open>P\<close>: what the updates of the object
  that \<^verbatim>\<open>Array.prototype.find\<close> returned do to the array.\<close>

fun replaceFirst :: "('a \<Rightarrow> bool) \<Rightarrow> 'a \<Rightarrow> 'a list \<Rightarrow> 'a list" where
  "replaceFirst P y [] = []"
| "replaceFirst P y (x # xs) = (if P x then y # xs else x # replaceFirst P y xs)"

text \<open>The three updates of \<^verbatim>\<open>progressEntry\<close>: both counters, then the mastery recomputed
  from them.\<close>

definition countAttempt :: "bool \<Rightarrow> progressEntry \<Rightarrow> progressEntry option" where
  "countAttempt correct p =
     (let t = totalAttempts p + 1;
          c = (if correct then correctAttempts p + 1 else correctAttempts p)
      in case percentage c t of
           None \<Rightarrow> None
         | Some m \<Rightarrow> Some (p\<lparr>totalAttempts := t, correctAttempts := c, mastery := m\<rparr>))"

text \<open>
  The progress array after the update, and the object the response is read from.
  \<^verbatim>\<open>user.progress\<close> is a Mongoose document array (\<^verbatim>\<open>progress: { type: [progressSchema] }\<close>
  on a document that \<^verbatim>\<open>User.findById\<close> returned). An entry that \<^verbatim>\<open>find\<close> returns is the
  subdocument itself, so its updates are updates of the array. When there is none, the
  route builds a plain object and pushes it. The methods of a Mongoose array cast their
  arguments: \<^verbatim>\<open>push\<close> builds a new subdocument from the plain object
  (\<^const>\<open>castProgress\<close>) and stores that, so the three updates that follow change the plain
  object, which the response reads, and not the subdocument, which is saved.
\<close>

definition updateProgress ::
  "string \<Rightarrow> string \<Rightarrow> bool \<Rightarrow> progressEntry list \<Rightarrow> (progressEntry list \<times> progressEntry) option" where
  "updateProgress apClass unit correct ps =
     (let isKey = (\<lambda>p. pe_apClass p = apClass \<and> pe_unit p = unit) in
      case find isKey ps of
        Some found \<Rightarrow>
          (case countAttempt correct found of
             None \<Rightarrow> None
           | Some progressEntry \<Rightarrow> Some (replaceFirst isKey progressEntry ps, progressEntry))
      | None \<Rightarrow>
          (let plain = \<lparr>pe_apClass = apClass, pe_unit = unit, completed = False, mastery = 0,
                         totalAttempts = 0, correctAttempts = 0\<rparr>
           in case countAttempt correct plain of
                None \<Rightarrow> None
              | Some progressEntry \<Rightarrow> Some (ps @ [castProgress plain], progressEntry)))"

definition recordAttempt ::
  "bool \<Rightarrow> attemptBody \<Rightarrow> user option \<Rightarrow> (httpError + attemptResponse) \<times> user option" where
  "recordAttempt save_ok body db =
     (if b_apClass body = [] \<or> b_unit body = [] \<or> b_selectedAnswer body = [] \<or>
         b_wasCorrect body = None
      then (Inl (Status400 ''Missing required fields: apClass, unit, selectedAnswer, wasCorrect''), db)
      else if b_questionId body = []
      then (Inl (Status400 ''questionId is required (questions are auto-saved during generation)''), db)
      else case db of
        None \<Rightarrow> (Inl (Status404 ''User not found''), db)
      | Some usr \<Rightarrow>
          (let correct = (b_wasCorrect body = Some True);
               attempt = castAttempt
                 \<lparr>qa_questionId = b_questionId body, qa_apClass = b_apClass body,
                  qa_unit = b_unit body, selectedAnswer = b_selectedAnswer body,
                  wasCorrect = correct, timeTakenMs = b_timeTakenMs body\<rparr>
           in case updateProgress (b_apClass body) (b_unit body) correct (progress usr) of
                None \<Rightarrow> (Inl (Status500 ''Failed to record attempt''), db)
              | Some (progress', progressEntry) \<Rightarrow>
                  if save_ok \<and> validAttempt attempt \<and> list_all validProgress progress'
                  then (Inr \<lparr>r_questionId = b_questionId body,
                              r_mastery = mastery progressEntry,
                              r_totalAttempts = totalAttempts progressEntry\<rparr>,
                        Some (usr\<lparr>progress := progress',
                                   questionHistory := questionHistory usr @ [attempt]\<rparr>))
                  else (Inl (Status500 ''Failed to record attempt''), db)))"

text \<open>A user as \<^verbatim>\<open>POST /register\<close> creates it (both arrays default to \<^verbatim>\<open>[]\<close>), and the
  users that calls of the route lead to. No other route writes \<^verbatim>\<open>progress\<close>.\<close>

definition newUser :: user where
  "newUser = \<lparr>progress = [], questionHistory = []\<rparr>"

inductive reachableUser :: "user \<Rightarrow> bool" where
  registered: "reachableUser newUser"
| recorded: "reachableUser u \<Longrightarrow> recordAttempt save_ok body (Some u) = (r, Some u') \<Longrightarrow> reachableUser u'"

text \<open>A scenario: one user answers questions of AP Biology, Unit 1; \<open>masteries\<close> lists
  the mastery of each response in turn.\<close>

definition attemptOf :: "bool \<Rightarrow> attemptBody" where
  "attemptOf correct =
     \<lparr>b_questionId = ''q-1'', b_apClass = ''AP Biology'', b_unit = ''Unit 1'',
      b_selectedAnswer = ''A'', b_wasCorrect = Some correct, b_timeTakenMs = 1200\<rparr>"

fun masteries :: "bool list \<Rightarrow> user option \<Rightarrow> (httpError + nat) list" where
  "masteries [] db = []"
| "masteries (correct # rest) db =
     (case recordAttempt True (attemptOf correct) db of
        (Inl e, db') \<Rightarrow> Inl e # masteries rest db'
      | (Inr response, db') \<Rightarrow> Inr (r_mastery response) # masteries rest db')"

definition entryOk :: "progressEntry \<Rightarrow> bool" where
  "entryOk p \<longleftrightarrow> correctAttempts p \<le> totalAttempts p \<and> mastery p \<le> 100"

section \<open>Questions, the cache collection and the blob store\<close>

text \<open>
  The \<^verbatim>\<open>APQuestion\<close> schema of \<^verbatim>\<open>aiService.js\<close>, which is also the \<^verbatim>\<open>answer\<close> object of a
  response: the question text, four options, the letter of the correct one and the
  explanation.
\<close>

record questionData =
  question :: string
  optionA :: string
  optionB :: string
  optionC :: string
  optionD :: string
  correctAnswer :: string
  explanation :: string

text \<open>
  A document of the MongoDB collection behind the model \<^verbatim>\<open>Question\<close> (\<^verbatim>\<open>questionSchema\<close>):
  the cache entry of one class and unit. \<open>doc_id\<close> is \<^verbatim>\<open>_id.toString()\<close>; the seven
  question fields of the schema are kept together in \<open>doc_question\<close>. The schema declares
  no unique index, so the collection is a list of documents and not a map from keys.
\<close>

record questionDoc =
  doc_id :: string
  doc_apClass :: string
  doc_unit :: string
  doc_question :: questionData

text \<open>
  An object of the S3 bucket as \<^verbatim>\<open>JSON.parse\<close> reads it back: the question fields together
  with \<^verbatim>\<open>apClass\<close>, \<^verbatim>\<open>unit\<close> and the \<^verbatim>\<open>id\<close> that the history route compares with
  (\<^verbatim>\<open>questions.find(q => q.id === h.questionId)\<close>).
\<close>

record storedQuestion =
  sq_id :: string
  sq_apClass :: string
  sq_unit :: string
  sq_question :: questionData

text \<open>
  The state the services act on: the cache collection, the bucket (object key to
  content), the background refreshes that calls have scheduled with \<^verbatim>\<open>setImmediate\<close> and
  that have not started yet (each by its class and unit), and the log of the calls to the
  outside that took effect, in the order they happened. A refresh is in flight from the
  moment it is scheduled until its \<^verbatim>\<open>generateAndStoreQuestion\<close> has finished.
\<close>

datatype effect =
    ProviderReplied string string questionData
  | BlobPut string
  | BlobPutFailed
  | CacheUpsert string string

record world =
  cache :: "questionDoc list"
  blobs :: "(string \<times> storedQuestion) list"
  pending :: "(string \<times> string) list"
  effects :: "effect list"

text \<open>
  What the outside answers during one call: whether \<^verbatim>\<open>Question.findOne\<close> succeeds, what
  the model provider replies (a parsed question, or the message of the error that
  \<^verbatim>\<open>generateAPQuestion\<close> throws: no API key, no message, a refusal, no parsed output), the
  value of \<^verbatim>\<open>crypto.randomUUID()\<close>, whether the \<^verbatim>\<open>putObject\<close> succeeds, whether
  \<^verbatim>\<open>Question.findOneAndUpdate\<close> succeeds (the connection holds and the validators that
  \<^verbatim>\<open>runValidators: true\<close> runs on the update accept it), and the \<^verbatim>\<open>_id\<close> MongoDB gives a
  document it inserts.
\<close>

record outcome =
  db_find_ok :: bool
  provider_reply :: "string + questionData"
  uuid :: string
  s3_put_ok :: bool
  db_update_ok :: bool
  objectId :: string

text \<open>The source throws plain \<^verbatim>\<open>Error\<close> objects; they are told apart here by the call
  that raised them.\<close>

datatype error =
    GenerationError string
  | StorageError string
  | DatabaseError string
  | NotFoundError string

section \<open>questionStorageService.js\<close>

text \<open>\<^verbatim>\<open>const key = `questions/${questionId}.json`;\<close>\<close>

definition s3Key :: "string \<Rightarrow> string" where
  "s3Key questionId = ''questions/'' @ questionId @ ''.json''"

text \<open>
  Modelled from the spec: \<^verbatim>\<open>saveQuestionToS3\<close>. \<^verbatim>\<open>aiService.js\<close> calls
  \<^verbatim>\<open>questionStorageService.saveQuestionToS3\<close>, but of the function the sources only hold
  the comment (\<open>Save a question to S3 storage\<close>, taking the full question data and
  returning the question ID, the S3 key) and the helper \<^verbatim>\<open>generateQuestionId\<close>, which
  returns \<^verbatim>\<open>crypto.randomUUID()\<close>. The specification has the put write the payload under
  a fresh unique ID, one object per question at a path keyed by the ID, holding the full
  question fields, and fail with a storage error. The path is the one
  \<^verbatim>\<open>getQuestionFromS3\<close> reads.
\<close>

definition saveQuestionToS3 ::
  "outcome \<Rightarrow> string \<Rightarrow> string \<Rightarrow> questionData \<Rightarrow> world \<Rightarrow> (error + string) \<times> world" where
  "saveQuestionToS3 ev apClass unit q w =
     (let questionId = uuid ev in
      if s3_put_ok ev
      then (Inr questionId,
            w\<lparr>blobs := AList.update (s3Key questionId)
                        \<lparr>sq_id = questionId, sq_apClass = apClass, sq_unit = unit,
                         sq_question = q\<rparr> (blobs w),
              effects := effects w @ [BlobPut (s3Key questionId)]\<rparr>)
      else (Inl (StorageError ''putObject failed''), w\<lparr>effects := effects w @ [BlobPutFailed]\<rparr>))"

text \<open>
  \<^verbatim>\<open>
  async function getQuestionFromS3(questionId) {
    try {
      const key = `questions/${questionId}.json`;
      const stream = await s3Service.getObjectStream({ key });
      ...
      const questionData = JSON.parse(buffer.toString('utf-8'));
      return questionData;
    } catch (error) {
      logger.error('Failed to retrieve question from S3', ...);
      throw new Error('Question not found in S3');
    }
  }
  \<close>
  \<open>s3_get_ok\<close> says whether the bucket can be read at all.
\<close>

definition getQuestionFromS3 :: "bool \<Rightarrow> string \<Rightarrow> world \<Rightarrow> error + storedQuestion" where
  "getQuestionFromS3 s3_get_ok questionId w =
     (if s3_get_ok
      then (case map_of (blobs w) (s3Key questionId) of
              Some questionData \<Rightarrow> Inr questionData
            | None \<Rightarrow> Inl (NotFoundError ''Question not found in S3''))
      else Inl (NotFoundError ''Question not found in S3''))"

section \<open>aiService.js: generating a question\<close>

text \<open>
  \<^verbatim>\<open>
  async function generateAPQuestion({ className, unit }) {
      const provider = 'openai';
      if (!className) throw new Error('className is required');
      ...
      const client = buildClient();
      const model = selectModelForClass(className);
      ...
      try {
          const completion = await client.chat.completions.parse(completionParams);
          const message = completion?.choices?.[0]?.message;
          if (!message) throw new Error('No message returned from provider');
          if (message.refusal) throw new Error('Content refused by provider');
          const parsedQuestion = message.parsed;
          if (!parsedQuestion) throw new Error('No parsed output from structured response');
          try {
              const questionId = await questionStorageService.saveQuestionToS3({
                  ...parsedQuestion, apClass: className, unit: unit || 'General' });
              logger.info('Question auto-saved to S3', { questionId, provider, model });
              return { answer: parsedQuestion, provider, model, questionId };
          } catch (s3Error) {
              logger.warn('Failed to auto-save question to S3', { error: s3Error.message });
              return { answer: parsedQuestion, provider, model };
          }
      } catch (error) { throw error; }
  }
  \<close>
\<close>

record generated =
  g_answer :: questionData
  g_provider :: string
  g_model :: string
  g_questionId :: "string option"

definition generateAPQuestion ::
  "outcome \<Rightarrow> string \<Rightarrow> string \<Rightarrow> world \<Rightarrow> (error + generated) \<times> world" where
  "generateAPQuestion ev className unit w =
     (if className = [] then (Inl (GenerationError ''className is required''), w)
      else case provider_reply ev of
        Inl message \<Rightarrow> (Inl (GenerationError message), w)
      | Inr parsedQuestion \<Rightarrow>
          (let w1 = w\<lparr>effects := effects w @ [ProviderReplied className unit parsedQuestion]\<rparr>;
               model = selectModelForClass className
           in case saveQuestionToS3 ev className (if unit = [] then ''General'' else unit)
                     parsedQuestion w1 of
                (Inr questionId, w2) \<Rightarrow>
                  (Inr \<lparr>g_answer = parsedQuestion, g_provider = ''openai'', g_model = model,
                         g_questionId = Some questionId\<rparr>, w2)
              | (Inl s3Error, w2) \<Rightarrow>
                  (Inr \<lparr>g_answer = parsedQuestion, g_provider = ''openai'', g_model = model,
                         g_questionId = None\<rparr>, w2)))"

section \<open>The question cache service\<close>

text \<open>
  \<^verbatim>\<open>Question.findOne({ apClass: className, unit: unit })\<close>: the first document of the
  collection with this class and unit.
\<close>

definition findOne :: "string \<Rightarrow> string \<Rightarrow> questionDoc list \<Rightarrow> questionDoc option" where
  "findOne apClass unit docs = find (\<lambda>d. doc_apClass d = apClass \<and> doc_unit d = unit) docs"

text \<open>
  \<^verbatim>\<open>
  Question.findOneAndUpdate({ apClass: className, unit: unit },
      { apClass: className, unit: unit, question: questionData.question,
        optionA: ..., optionB: ..., optionC: ..., optionD: ...,
        correctAnswer: questionData.correctAnswer, explanation: questionData.explanation },
      { upsert: true, new: true, runValidators: true })
  \<close>
  One call of the database, here with no other call running inside the database at the
  same time: the first matching document gets all nine fields of the update and keeps its
  \<^verbatim>\<open>_id\<close>; when none matches, a document with these fields and a new \<^verbatim>\<open>_id\<close> is inserted.
  The document after the update is returned (\<^verbatim>\<open>new: true\<close>). What two such calls do
  when they overlap is the matter of \<open>reachableConcurrent\<close> below.
\<close>

definition findOneAndUpdate ::
  "string \<Rightarrow> string \<Rightarrow> string \<Rightarrow> questionData \<Rightarrow> questionDoc list \<Rightarrow> questionDoc \<times> questionDoc list" where
  "findOneAndUpdate newId apClass unit q docs =
     (case findOne apClass unit docs of
        Some d \<Rightarrow>
          (let d' = d\<lparr>doc_apClass := apClass, doc_unit := unit, doc_question := q\<rparr>
           in (d', replaceFirst (\<lambda>d. doc_apClass d = apClass \<and> doc_unit d = unit) d' docs))
      | None \<Rightarrow>
          (let d' = \<lparr>doc_id = newId, doc_apClass = apClass, doc_unit = unit, doc_question = q\<rparr>
           in (d', docs @ [d'])))"

text \<open>
  \<^verbatim>\<open>
  async function generateAndStoreQuestion(className, unit, provider = 'openai') {
      await ensureDbConnection();
      try {
          const result = await aiService.generateAPQuestion({ className, unit, provider });
          let questionData;
          if (typeof result.answer === 'string') { questionData = JSON.parse(result.answer); }
          else { questionData = result.answer; }
          const cachedQuestion = await Question.findOneAndUpdate(...);
          return { answer: questionData, provider: result.provider, model: result.model,
                   cached: false, questionId: cachedQuestion._id.toString() };
      } catch (error) {
          console.error('Error generating and storing question:', error.message);
          throw error;
      }
  }
  \<close>
  \<^verbatim>\<open>ensureDbConnection\<close> never throws (\<^verbatim>\<open>connectDb\<close> catches and logs), and
  \<^verbatim>\<open>generateAPQuestion\<close> always answers with a parsed object, never a string.
\<close>

record served =
  s_answer :: questionData
  s_provider :: string
  s_model :: string
  s_cached :: bool
  s_questionId :: string

definition generateAndStoreQuestion ::
  "outcome \<Rightarrow> string \<Rightarrow> string \<Rightarrow> world \<Rightarrow> (error + served) \<times> world" where
  "generateAndStoreQuestion ev className unit w =
     (case generateAPQuestion ev className unit w of
        (Inl e, w1) \<Rightarrow> (Inl e, w1)
      | (Inr result, w1) \<Rightarrow>
          (let questionData = g_answer result in
           if db_update_ok ev
           then (case findOneAndUpdate (objectId ev) className unit questionData (cache w1) of
                   (cachedQuestion, docs) \<Rightarrow>
                     (Inr \<lparr>s_answer = questionData, s_provider = g_provider result,
                            s_model = g_model result, s_cached = False,
                            s_questionId = doc_id cachedQuestion\<rparr>,
                      w1\<lparr>cache := docs, effects := effects w1 @ [CacheUpsert className unit]\<rparr>))
           else (Inl (DatabaseError ''findOneAndUpdate failed''), w1)))"

text \<open>
  \<^verbatim>\<open>
  function refreshQuestionBackground(className, unit) {
      generateAndStoreQuestion(className, unit, 'openai')
          .then(() => { ... console.log(...) })
          .catch((error) => { console.error(...);
              // If it fails, log but don't crash - the old cached question will remain
          });
  }
  \<close>
\<close>

definition refreshQuestionBackground :: "outcome \<Rightarrow> string \<Rightarrow> string \<Rightarrow> world \<Rightarrow> world" where
  "refreshQuestionBackground ev className unit w =
     (case generateAndStoreQuestion ev className unit w of
        (Inr _, w') \<Rightarrow> w'
      | (Inl error, w') \<Rightarrow> w')"

text \<open>
  \<^verbatim>\<open>
  async function getCachedQuestion(className, unit = '', provider = 'openai') {
      await ensureDbConnection();
      try {
          const cached = await Question.findOne({ apClass: className, unit: unit });
          if (cached) {
              const questionData = { question: cached.question, optionA: cached.optionA, ...,
                                     explanation: cached.explanation };
              setImmediate(() => { refreshQuestionBackground(className, unit, provider); });
              return { answer: questionData, provider: 'cache', model: 'cached',
                       cached: true, questionId: cached._id.toString() };
          } else {
              return await generateAndStoreQuestion(className, unit, provider);
          }
      } catch (error) {
          console.error('Error getting cached question:', error.message);
          throw error;
      }
  }
  \<close>
\<close>

definition getCachedQuestion ::
  "outcome \<Rightarrow> string \<Rightarrow> string \<Rightarrow> world \<Rightarrow> (error + served) \<times> world" where
  "getCachedQuestion ev className unit w =
     (if \<not> db_find_ok ev then (Inl (DatabaseError ''findOne failed''), w)
      else case findOne className unit (cache w) of
        Some cached_doc \<Rightarrow>
          (Inr \<lparr>s_answer = doc_question cached_doc, s_provider = ''cache'', s_model = ''cached'',
                 s_cached = True, s_questionId = doc_id cached_doc\<rparr>,
           w\<lparr>pending := pending w @ [(className, unit)]\<rparr>)
      | None \<Rightarrow> generateAndStoreQuestion ev className unit w)"

text \<open>The event loop runs the oldest queued callback: one background refresh.\<close>

definition runPending :: "outcome \<Rightarrow> world \<Rightarrow> world" where
  "runPending ev w =
     (case pending w of
        [] \<Rightarrow> w
      | (className, unit) # rest \<Rightarrow> refreshQuestionBackground ev className unit (w\<lparr>pending := rest\<rparr>))"

text \<open>\<^verbatim>\<open>clearCache\<close>: \<^verbatim>\<open>Question.deleteMany({})\<close>, answering the number of documents deleted.\<close>

definition clearCache :: "world \<Rightarrow> nat \<times> world" where
  "clearCache w = (length (cache w), w\<lparr>cache := []\<rparr>)"

section \<open>Scenarios\<close>

text \<open>An empty database and bucket, a question, and two answers of the outside: everything
  works, and everything but the bucket works.\<close>

definition emptyWorld :: world where
  "emptyWorld = \<lparr>cache = [], blobs = [], pending = [], effects = []\<rparr>"

definition sampleQuestion :: questionData where
  "sampleQuestion =
     \<lparr>question = ''Which organelle makes most of the ATP of a cell?'',
      optionA = ''Ribosome'', optionB = ''Mitochondrion'', optionC = ''Golgi apparatus'',
      optionD = ''Lysosome'', correctAnswer = ''B'',
      explanation = ''Oxidative phosphorylation takes place in the mitochondrion.''\<rparr>"

definition allUp :: outcome where
  "allUp = \<lparr>db_find_ok = True, provider_reply = Inr sampleQuestion,
            uuid = ''3b241101-e2bb-4255-8caf-4136c566a962'', s3_put_ok = True,
            db_update_ok = True, objectId = ''65f1a2b3c4d5e6f708192a3b''\<rparr>"

definition s3Down :: outcome where
  "s3Down = allUp\<lparr>s3_put_ok := False\<rparr>"

definition providerDown :: outcome where
  "providerDown = allUp\<lparr>provider_reply := Inl ''Content refused by provider''\<rparr>"

text \<open>The state after a first request for AP Biology, Unit 1, with everything working and
  with the bucket failing, and the state after two more requests following the first.\<close>

definition populated :: world where
  "populated = snd (getCachedQuestion allUp ''AP Biology'' ''Unit 1'' emptyWorld)"

definition populatedS3Down :: world where
  "populatedS3Down = snd (getCachedQuestion s3Down ''AP Biology'' ''Unit 1'' emptyWorld)"

definition twoHits :: world where
  "twoHits =
     snd (getCachedQuestion allUp ''AP Biology'' ''Unit 1''
       (snd (getCachedQuestion allUp ''AP Biology'' ''Unit 1'' populated)))"

section \<open>The states the service can reach\<close>

text \<open>
  Requests and background refreshes run as asynchronous tasks of one process: a task
  gives way only where it awaits a call to the outside, and what the tasks do to the state
  is a sequence of such calls, in some order. The calls are: \<^const>\<open>generateAPQuestion\<close>
  (the provider's reply and the put to the bucket; it never touches the cache), the
  update of the cache with a question that some earlier call generated, the queueing of a
  refresh by a call that found an entry, the start of a queued refresh, and
  \<^const>\<open>clearCache\<close>. In \<open>reachable\<close> every call to the database has taken effect before
  the next one starts: these are the runs in which no two calls overlap inside the
  database. The runs in which they do are those of \<open>reachableConcurrent\<close> below, which
  contains \<open>reachable\<close>.
\<close>

definition docKey :: "questionDoc \<Rightarrow> string \<times> string" where
  "docKey d = (doc_apClass d, doc_unit d)"

inductive reachable :: "world \<Rightarrow> bool" where
  initial: "reachable emptyWorld"
| generated: "reachable w \<Longrightarrow> generateAPQuestion ev className unit w = (r, w') \<Longrightarrow> reachable w'"
| upserted: "reachable w \<Longrightarrow> ProviderReplied className unit q \<in> set (effects w) \<Longrightarrow>
    reachable (w\<lparr>cache := snd (findOneAndUpdate newId className unit q (cache w)),
                 effects := effects w @ [CacheUpsert className unit]\<rparr>)"
| queued: "reachable w \<Longrightarrow> findOne className unit (cache w) = Some d \<Longrightarrow>
    reachable (w\<lparr>pending := pending w @ [(className, unit)]\<rparr>)"
| dequeued: "reachable w \<Longrightarrow> pending w = job # rest \<Longrightarrow> reachable (w\<lparr>pending := rest\<rparr>)"
| cleared: "reachable w \<Longrightarrow> reachable (snd (clearCache w))"

text \<open>At most one document for each class and unit, and each document holds, whole, a
  question that the provider generated for its class and unit.\<close>

definition cacheOk :: "world \<Rightarrow> bool" where
  "cacheOk w \<longleftrightarrow>
     distinct (map docKey (cache w)) \<and>
     list_all (\<lambda>d. ProviderReplied (doc_apClass d) (doc_unit d) (doc_question d) \<in> set (effects w))
       (cache w)"

section \<open>A scenario with two refreshes of one key\<close>

text \<open>Two background refreshes of AP Biology, Unit 1 that run at the same time: both were
  queued by the two requests of \<^const>\<open>twoHits\<close>, both have generated and stored their
  question, then the second writes the cache before the first does.\<close>

definition questionA :: questionData where
  "questionA = sampleQuestion\<lparr>question := ''Where does glycolysis take place?'',
     optionA := ''Cytosol'', optionB := ''Nucleus'', correctAnswer := ''A'',
     explanation := ''Glycolysis runs in the cytosol.''\<rparr>"

definition questionB :: questionData where
  "questionB = sampleQuestion\<lparr>question := ''Which molecule carries the genetic code?'',
     optionA := ''DNA'', optionB := ''ATP'', correctAnswer := ''A'',
     explanation := ''DNA stores the hereditary information.''\<rparr>"

definition refreshA :: outcome where
  "refreshA = allUp\<lparr>provider_reply := Inr questionA,
                     uuid := ''7d9f4c1a-0b2e-4f6a-9c3d-5e8f7a6b4c2d'',
                     objectId := ''65f1a2b3c4d5e6f708192a3c''\<rparr>"

definition refreshB :: outcome where
  "refreshB = allUp\<lparr>provider_reply := Inr questionB,
                     uuid := ''a1b2c3d4-e5f6-4789-8abc-def012345678'',
                     objectId := ''65f1a2b3c4d5e6f708192a3d''\<rparr>"

definition bothGenerated :: world where
  "bothGenerated =
     snd (generateAPQuestion refreshB ''AP Biology'' ''Unit 1''
       (snd (generateAPQuestion refreshA ''AP Biology'' ''Unit 1'' (twoHits\<lparr>pending := []\<rparr>))))"

definition bWritten :: world where
  "bWritten =
     bothGenerated\<lparr>cache := snd (findOneAndUpdate (objectId refreshB) ''AP Biology'' ''Unit 1''
                                  questionB (cache bothGenerated)),
                   effects := effects bothGenerated @ [CacheUpsert ''AP Biology'' ''Unit 1'']\<rparr>"

definition interleaved :: world where
  "interleaved =
     bWritten\<lparr>cache := snd (findOneAndUpdate (objectId refreshA) ''AP Biology'' ''Unit 1''
                             questionA (cache bWritten)),
              effects := effects bWritten @ [CacheUpsert ''AP Biology'' ''Unit 1'']\<rparr>"

section \<open>Upserts that overlap in the database\<close>

text \<open>
  \<^verbatim>\<open>questionSchema\<close> declares no index on \<^verbatim>\<open>apClass\<close> and \<^verbatim>\<open>unit\<close>, unique or not, and the
  service holds no lock or marker for a key. MongoDB runs an update with \<^verbatim>\<open>upsert: true\<close> as
  a query followed by a write. The write to a document that the query found is atomic on
  that document, and one that conflicts is run again from the query: it is the step
  \<open>upserted\<close>. When the query finds nothing the write is an insert, and without a unique
  index nothing orders two such upserts: each can finish its query before the other
  inserts, and then each inserts a document of its own. The state therefore carries, beside
  the \<^typ>\<open>world\<close>, the inserts the database has decided on and not yet made: the new
  \<^verbatim>\<open>_id\<close>, the class, the unit and the question of each.
\<close>

type_synonym pendingInsert = "string \<times> string \<times> string \<times> questionData"

inductive reachableConcurrent :: "pendingInsert list \<Rightarrow> world \<Rightarrow> bool" where
  initial: "reachableConcurrent [] emptyWorld"
| generated: "reachableConcurrent ins w \<Longrightarrow> generateAPQuestion ev className unit w = (r, w') \<Longrightarrow>
    reachableConcurrent ins w'"
| upserted: "reachableConcurrent ins w \<Longrightarrow> ProviderReplied className unit q \<in> set (effects w) \<Longrightarrow>
    reachableConcurrent ins
      (w\<lparr>cache := snd (findOneAndUpdate newId className unit q (cache w)),
         effects := effects w @ [CacheUpsert className unit]\<rparr>)"
| missed: "reachableConcurrent ins w \<Longrightarrow> ProviderReplied className unit q \<in> set (effects w) \<Longrightarrow>
    findOne className unit (cache w) = None \<Longrightarrow>
    reachableConcurrent (ins @ [(newId, className, unit, q)]) w"
| inserted: "reachableConcurrent ins w \<Longrightarrow> (newId, className, unit, q) \<in> set ins \<Longrightarrow>
    reachableConcurrent (remove1 (newId, className, unit, q) ins)
      (w\<lparr>cache := cache w @ [\<lparr>doc_id = newId, doc_apClass = className, doc_unit = unit,
                                 doc_question = q\<rparr>],
         effects := effects w @ [CacheUpsert className unit]\<rparr>)"
| queued: "reachableConcurrent ins w \<Longrightarrow> findOne className unit (cache w) = Some d \<Longrightarrow>
    reachableConcurrent ins (w\<lparr>pending := pending w @ [(className, unit)]\<rparr>)"
| dequeued: "reachableConcurrent ins w \<Longrightarrow> pending w = job # rest \<Longrightarrow>
    reachableConcurrent ins (w\<lparr>pending := rest\<rparr>)"
| cleared: "reachableConcurrent ins w \<Longrightarrow> reachableConcurrent ins (snd (clearCache w))"

section \<open>A scenario with two cold misses of one key\<close>

text \<open>Two requests for AP Biology, Unit 1 that both find the cache empty. Both generate and
  store their question; the queries of both upserts find no document; then both insert.\<close>

definition bothMissed :: world where
  "bothMissed =
     snd (generateAPQuestion refreshB ''AP Biology'' ''Unit 1''
       (snd (generateAPQuestion refreshA ''AP Biology'' ''Unit 1'' emptyWorld)))"

definition aInserted :: world where
  "aInserted =
     bothMissed\<lparr>cache := cache bothMissed @
                  [\<lparr>doc_id = objectId refreshA, doc_apClass = ''AP Biology'',
                    doc_unit = ''Unit 1'', doc_question = questionA\<rparr>],
                effects := effects bothMissed @ [CacheUpsert ''AP Biology'' ''Unit 1'']\<rparr>"

definition bothInserted :: world where
  "bothInserted =
     aInserted\<lparr>cache := cache aInserted @
                 [\<lparr>doc_id = objectId refreshB, doc_apClass = ''AP Biology'',
                   doc_unit = ''Unit 1'', doc_question = questionB\<rparr>],
               effects := effects aInserted @ [CacheUpsert ''AP Biology'' ''Unit 1'']\<rparr>"

chapter \<open>Verified properties\<close>

section \<open>Properties of the profile selection\<close>

lemma includes_iff_sublist: "includes_str s k \<longleftrightarrow> sublist k s"
proof (induction s)
  case Nil
  show ?case by auto
next
  case (Cons c cs)
  show ?case
    using Cons.IH by (auto simp: sublist_Cons_right)
qed

lemma toLowerChar_idem: "toLowerChar (toLowerChar c) = toLowerChar c"
  by (auto simp: toLowerChar_def Let_def)

lemma toLowerCase_idem: "toLowerCase (toLowerCase s) = toLowerCase s"
  by (simp add: toLowerCase_def toLowerChar_idem)

lemma matchesKeyword_iff:
  "matchesKeyword n ks \<longleftrightarrow> (\<exists>k\<in>set ks. sublist (toLowerCase k) n)"
  by (simp add: matchesKeyword_def list_ex_iff includes_iff_sublist)

lemma keywords_lower:
  "map toLowerCase historyKeywords = historyKeywords"
  "map toLowerCase englishKeywords = englishKeywords"
  by code_simp+

lemma matches_history:
  "matchesKeyword n historyKeywords \<longleftrightarrow> (\<exists>k\<in>set historyKeywords. sublist k n)"
proof -
  have "(\<exists>k\<in>set historyKeywords. sublist (toLowerCase k) n)
        \<longleftrightarrow> (\<exists>k\<in>set (map toLowerCase historyKeywords). sublist k n)"
    by auto
  then show ?thesis by (simp only: matchesKeyword_iff keywords_lower)
qed

lemma matches_english:
  "matchesKeyword n englishKeywords \<longleftrightarrow> (\<exists>k\<in>set englishKeywords. sublist k n)"
proof -
  have "(\<exists>k\<in>set englishKeywords. sublist (toLowerCase k) n)
        \<longleftrightarrow> (\<exists>k\<in>set (map toLowerCase englishKeywords). sublist k n)"
    by auto
  then show ?thesis by (simp only: matchesKeyword_iff keywords_lower)
qed

text \<open>
  C5, as the source has it. \<^const>\<open>selectModelForClass\<close> is a function of the subject name
  alone. It answers \<^verbatim>\<open>gpt-4.1-mini\<close> exactly when the lower-cased name contains one of the
  keywords history, government, economics, psychology, sociology, human geography, world
  studies, english, literature or computer science principles, and \<^verbatim>\<open>gpt-5-mini\<close> for
  every other name; the answer does not depend on the case of the letters.
\<close>

theorem selectModelForClass_profiles:
  "selectModelForClass className =
     (if \<exists>k \<in> set (historyKeywords @ englishKeywords @ [''computer science principles'']).
           sublist k (toLowerCase className)
      then ''gpt-4.1-mini'' else ''gpt-5-mini'')
   \<and> selectModelForClass (toLowerCase className) = selectModelForClass className"
proof -
  have econ: "''economics'' \<in> set historyKeywords"
    by (simp add: historyKeywords_def)
  have "selectModelForClass className =
     (if \<exists>k \<in> set (historyKeywords @ englishKeywords @ [''computer science principles'']).
           sublist k (toLowerCase className)
      then ''gpt-4.1-mini'' else ''gpt-5-mini'')"
    unfolding selectModelForClass_def Let_def matches_history matches_english includes_iff_sublist
    using econ by auto
  moreover have "selectModelForClass (toLowerCase className) = selectModelForClass className"
    by (simp add: selectModelForClass_def toLowerCase_idem)
  ultimately show ?thesis by simp
qed

theorem selectModelForClass_profiles_witness:
  "(\<exists>k \<in> set (historyKeywords @ englishKeywords @ [''computer science principles'']).
       sublist k (toLowerCase ''AP Psychology''))
   \<and> selectModelForClass ''AP Psychology'' = ''gpt-4.1-mini''
   \<and> selectModelForClass ''ap psychology'' = ''gpt-4.1-mini''"
proof -
  have low: "toLowerCase ''AP Psychology'' = ''ap psychology''"
    by code_simp
  have key: "\<exists>k \<in> set (historyKeywords @ englishKeywords @ [''computer science principles'']).
               sublist k (toLowerCase ''AP Psychology'')"
    unfolding low by code_simp
  from selectModelForClass_profiles [of "''AP Psychology''"] key low
  show ?thesis by simp
qed

text \<open>
  C5, as the specification words it, fails: AP Computer Science Principles is no
  humanities or social-science subject, yet it gets the profile of AP US History and not
  the profile of AP Biology (the repository's own test of \<^verbatim>\<open>selectModelForClass\<close> expects
  exactly this).
\<close>

theorem selectModelForClass_computer_science_principles:
  "selectModelForClass ''AP Computer Science Principles'' = selectModelForClass ''AP US History''
   \<and> selectModelForClass ''AP Computer Science Principles'' \<noteq> selectModelForClass ''AP Biology''"
  by code_simp

section \<open>The mastery percentage stays between 0 and 100\<close>

lemma rne_le: 
  assumes "0 < b" and "a \<le> n * b" shows "rne a b \<le> n"
proof (cases "a = n * b")
  case True
  with assms show ?thesis by (simp add: rne_def)
next
  case False
  with assms have "a < n * b" by simp
  then have "a div b < n" using assms(1) by (simp add: less_mult_imp_div_less)
  then show ?thesis by (simp add: rne_def Let_def)
qed

lemma js_div_le:
  assumes "c \<le> t" and "0 < t" and "js_div c t = (m, p)"
  shows "m \<le> 2 ^ p"
proof (cases "c = 0")
  case True
  with assms show ?thesis by (simp add: js_div_def)
next
  case False
  with assms(3) have m: "m = rne (c * 2 ^ p) t" 
    by (auto simp: js_div_def Let_def)
  have "c * 2 ^ p \<le> 2 ^ p * t" using assms(1) by (simp add: mult.commute)
  with assms(2) show ?thesis unfolding m by (rule rne_le)
qed

lemma norm_shift_bound: "n < 2 ^ (53 + k) \<Longrightarrow> norm_shift n \<le> k"
proof (induction n arbitrary: k rule: norm_shift.induct)
  case (1 n)
  show ?case
  proof (cases "n < 2 ^ 53")
    case True
    then show ?thesis by (simp add: norm_shift.simps)
  next
    case False
    with "1.prems" have "k \<noteq> 0" by (cases k) auto
    then obtain j where k: "k = Suc j" by (cases k) auto
    have "(2::nat) ^ (53 + Suc j) = 2 ^ (53 + j) * 2"
      by (simp only: add_Suc_right power_Suc mult.commute)
    with "1.prems" have "n < 2 ^ (53 + j) * 2" unfolding k by (simp only:)
    then have "n div 2 < 2 ^ (53 + j)" by (rule less_mult_imp_div_less)
    with "1.IH" [OF False] have "norm_shift (n div 2) \<le> j" by blast
    with False show ?thesis by (simp add: norm_shift.simps [of n] k)
  qed
qed

lemma js_mul_le:
  assumes "m \<le> 2 ^ p" and "js_mul (m, p) 100 = (v, q)"
  shows "q = p \<and> v \<le> 100 * 2 ^ p"
proof -
  define s where "s = norm_shift (m * 100)"
  from assms(2) have q: "q = p" and v: "v = rne (m * 100) (2 ^ s) * 2 ^ s"
    by (auto simp: js_mul_def Let_def s_def)
  have "m * 100 \<le> 100 * 2 ^ p" using assms(1) by simp
  also have "\<dots> < 2 ^ 7 * 2 ^ p" by simp
  finally have lt: "m * 100 < 2 ^ (p + 7)" by (simp add: power_add mult.commute)
  have "s \<le> p"
  proof (cases "53 \<le> p + 7")
    case True
    then have e: "53 + (p + 7 - 53) = p + 7" by simp
    have "m * 100 < 2 ^ (53 + (p + 7 - 53))" using lt by (simp only: e)
    then have "s \<le> p + 7 - 53" unfolding s_def by (rule norm_shift_bound)
    then show ?thesis by simp
  next
    case False
    then have "(2::nat) ^ (p + 7) \<le> 2 ^ 53" by (intro power_increasing) simp_all
    with lt have "m * 100 < 2 ^ 53" by simp
    then show ?thesis by (simp add: s_def norm_shift.simps)
  qed
  then have split: "(2::nat) ^ p = 2 ^ (p - s) * 2 ^ s"
    by (simp add: power_add [symmetric])
  have "m * 100 \<le> (100 * 2 ^ (p - s)) * 2 ^ s"
    using assms(1) split by simp
  then have "rne (m * 100) (2 ^ s) \<le> 100 * 2 ^ (p - s)"
    by (intro rne_le) simp_all
  then have "v \<le> (100 * 2 ^ (p - s)) * 2 ^ s" unfolding v by simp
  with split q show ?thesis by simp
qed

lemma Math_round_le:
  assumes "v \<le> 100 * 2 ^ p" shows "Math_round (v, p) \<le> 100"
proof -
  define X :: nat where "X = 2 ^ p"
  have "0 < X" by (simp add: X_def)
  moreover have "v \<le> 100 * X" using assms by (simp add: X_def)
  ultimately have "2 * v + X < 101 * (X * 2)" by arith
  then have "2 * v + 2 ^ p < 101 * 2 ^ (p + 1)" by (simp add: X_def)
  then have "(2 * v + 2 ^ p) div 2 ^ (p + 1) < 101"
    by (simp add: less_mult_imp_div_less)
  then show ?thesis by (simp add: Math_round_def)
qed

lemma percentage_le_100:
  assumes "c \<le> t" and "0 < t"
  shows "\<exists>m. percentage c t = Some m \<and> m \<le> 100"
proof -
  obtain m p where d: "js_div c t = (m, p)" by (cases "js_div c t")
  obtain v q where x: "js_mul (m, p) 100 = (v, q)" by (cases "js_mul (m, p) 100")
  from js_div_le [OF assms d] have "m \<le> 2 ^ p" .
  from js_mul_le [OF this x] have "q = p" and "v \<le> 100 * 2 ^ p" by simp_all
  then have "Math_round (v, q) \<le> 100" by (simp add: Math_round_le)
  with assms(2) d x show ?thesis by (simp add: percentage_def)
qed

section \<open>Recording attempts: counters and mastery\<close>

lemma countAttempt_Some:
  assumes "correctAttempts p \<le> totalAttempts p"
  shows "\<exists>m. percentage (if correct then correctAttempts p + 1 else correctAttempts p)
                 (totalAttempts p + 1) = Some m \<and> m \<le> 100 \<and>
             countAttempt correct p =
               Some (p\<lparr>totalAttempts := totalAttempts p + 1,
                       correctAttempts := (if correct then correctAttempts p + 1 else correctAttempts p),
                       mastery := m\<rparr>)"
proof -
  let ?c = "if correct then correctAttempts p + 1 else correctAttempts p"
  have "?c \<le> totalAttempts p + 1" using assms by simp
  from percentage_le_100 [OF this] obtain m where
    m: "percentage ?c (totalAttempts p + 1) = Some m" "m \<le> 100" by auto
  then show ?thesis by (simp add: countAttempt_def Let_def)
qed

lemma countAttempt_counters:
  assumes "correctAttempts p \<le> totalAttempts p" and "countAttempt correct p = Some e"
  shows "correctAttempts e \<le> totalAttempts e \<and> mastery e \<le> 100 \<and>
         totalAttempts e = totalAttempts p + 1 \<and>
         correctAttempts e = (if correct then correctAttempts p + 1 else correctAttempts p) \<and>
         pe_apClass e = pe_apClass p \<and> pe_unit e = pe_unit p \<and>
         percentage (correctAttempts e) (totalAttempts e) = Some (mastery e)"
proof -
  from countAttempt_Some [OF assms(1), of correct] assms show ?thesis
    by (auto split: if_splits)
qed

lemma set_replaceFirst: "set (replaceFirst P y xs) \<subseteq> insert y (set xs)"
  by (induction xs) auto

lemma find_in_set: "find P xs = Some x \<Longrightarrow> x \<in> set xs \<and> P x"
  by (induction xs) (auto split: if_splits)

lemma updateProgress_counters:
  assumes "\<forall>p\<in>set ps. entryOk p" and "updateProgress apClass unit correct ps = Some (ps', e)"
  shows "(\<forall>p\<in>set ps'. entryOk p) \<and> entryOk e \<and> 1 \<le> totalAttempts e"
proof (cases "find (\<lambda>p. pe_apClass p = apClass \<and> pe_unit p = unit) ps")
  case None
  let ?plain = "\<lparr>pe_apClass = apClass, pe_unit = unit, completed = False, mastery = 0,
                  totalAttempts = 0, correctAttempts = 0\<rparr>"
  from assms(2) None have e: "countAttempt correct ?plain = Some e"
    and ps': "ps' = ps @ [castProgress ?plain]"
    by (auto simp: updateProgress_def Let_def split: option.splits)
  have "correctAttempts ?plain \<le> totalAttempts ?plain" by simp
  from countAttempt_counters [OF this e] have "entryOk e" "1 \<le> totalAttempts e"
    by (simp_all add: entryOk_def)
  moreover have "entryOk (castProgress ?plain)" by (simp add: entryOk_def castProgress_def)
  ultimately show ?thesis using assms(1) ps' by auto
next
  case (Some found)
  from assms(2) Some have e: "countAttempt correct found = Some e"
    and ps': "ps' = replaceFirst (\<lambda>p. pe_apClass p = apClass \<and> pe_unit p = unit) e ps"
    by (auto simp: updateProgress_def Let_def split: option.splits)
  from find_in_set [OF Some] assms(1) have "correctAttempts found \<le> totalAttempts found"
    by (auto simp: entryOk_def)
  from countAttempt_counters [OF this e] have ok: "entryOk e" "1 \<le> totalAttempts e"
    by (simp_all add: entryOk_def)
  have "set ps' \<subseteq> insert e (set ps)" unfolding ps' by (rule set_replaceFirst)
  with ok assms(1) show ?thesis by auto
qed

lemma recordAttempt_Inr:
  assumes "recordAttempt save_ok body (Some u) = (Inr response, db')"
  shows "\<exists>ps' e. updateProgress (b_apClass body) (b_unit body) (b_wasCorrect body = Some True)
                    (progress u) = Some (ps', e) \<and>
                  r_mastery response = mastery e \<and> r_totalAttempts response = totalAttempts e \<and>
                  (\<exists>u'. db' = Some u' \<and> progress u' = ps')"
  using assms
  by (auto simp: recordAttempt_def Let_def split: if_splits option.splits prod.splits)

lemma recordAttempt_progress:
  assumes "recordAttempt save_ok body (Some u) = (r, Some u')"
  shows "u' = u \<or> (\<exists>e. updateProgress (b_apClass body) (b_unit body) (b_wasCorrect body = Some True)
                    (progress u) = Some (progress u', e))"
  using assms
  by (auto simp: recordAttempt_def Let_def split: if_splits option.splits prod.splits)

lemma reachableUser_entryOk: "reachableUser u \<Longrightarrow> \<forall>p\<in>set (progress u). entryOk p"
proof (induction rule: reachableUser.induct)
  case registered
  show ?case by (simp add: newUser_def)
next
  case (recorded u save_ok body r u')
  from recordAttempt_progress [OF recorded.hyps(2)] show ?case
  proof
    assume "u' = u"
    with recorded.IH show ?thesis by simp
  next
    assume "\<exists>e. updateProgress (b_apClass body) (b_unit body) (b_wasCorrect body = Some True)
                    (progress u) = Some (progress u', e)"
    then obtain e where "updateProgress (b_apClass body) (b_unit body)
       (b_wasCorrect body = Some True) (progress u) = Some (progress u', e)" ..
    from updateProgress_counters [OF recorded.IH this] show ?thesis by simp
  qed
qed

text \<open>
  C10. For every user that calls of the route lead to, after every successful call each
  progress entry has \<open>correctAttempts \<le> totalAttempts\<close> (both are natural numbers: they
  start at 0 and are only incremented, the second only together with the first), every
  stored mastery and the mastery of the response are integers between 0 and 100, and the
  response counts at least one attempt, so that the quotient it was computed from is
  defined.
\<close>

theorem recordAttempt_counters_invariant:
  assumes "reachableUser u"
    and "recordAttempt save_ok body (Some u) = (Inr response, Some u')"
  shows "(\<forall>p\<in>set (progress u'). correctAttempts p \<le> totalAttempts p \<and> mastery p \<le> 100)
         \<and> r_mastery response \<le> 100 \<and> 1 \<le> r_totalAttempts response"
proof -
  from recordAttempt_Inr [OF assms(2)] obtain ps' e where
    up: "updateProgress (b_apClass body) (b_unit body) (b_wasCorrect body = Some True)
           (progress u) = Some (ps', e)"
    and r: "r_mastery response = mastery e" "r_totalAttempts response = totalAttempts e"
    and ps': "progress u' = ps'"
    by auto
  from updateProgress_counters [OF reachableUser_entryOk [OF assms(1)] up] r ps'
  show ?thesis by (auto simp: entryOk_def)
qed

text \<open>
  C10 at work: the first attempt of a new user.
\<close>

theorem recordAttempt_counters_invariant_witness:
  "reachableUser newUser \<and>
   recordAttempt True (attemptOf True) (Some newUser) =
     (Inr \<lparr>r_questionId = ''q-1'', r_mastery = 100, r_totalAttempts = 1\<rparr>,
      Some \<lparr>progress = [\<lparr>pe_apClass = ''AP Biology'', pe_unit = ''Unit 1'', completed = False,
                          mastery = 0, totalAttempts = 0, correctAttempts = 0\<rparr>],
            questionHistory = [\<lparr>qa_questionId = ''q-1'', qa_apClass = ''AP Biology'',
                                qa_unit = ''Unit 1'', selectedAnswer = ''A'', wasCorrect = True,
                                timeTakenMs = 1200\<rparr>]\<rparr>) \<and>
   list_all (\<lambda>p. correctAttempts p \<le> totalAttempts p \<and> mastery p \<le> 100)
     [\<lparr>pe_apClass = ''AP Biology'', pe_unit = ''Unit 1'', completed = False,
       mastery = 0, totalAttempts = 0, correctAttempts = 0\<rparr>] \<and>
   r_mastery \<lparr>r_questionId = ''q-1'', r_mastery = 100, r_totalAttempts = 1\<rparr> \<le> 100 \<and>
   1 \<le> r_totalAttempts \<lparr>r_questionId = ''q-1'', r_mastery = 100, r_totalAttempts = 1\<rparr>"
proof -
  have run: "recordAttempt True (attemptOf True) (Some newUser) =
     (Inr \<lparr>r_questionId = ''q-1'', r_mastery = 100, r_totalAttempts = 1\<rparr>,
      Some \<lparr>progress = [\<lparr>pe_apClass = ''AP Biology'', pe_unit = ''Unit 1'', completed = False,
                          mastery = 0, totalAttempts = 0, correctAttempts = 0\<rparr>],
            questionHistory = [\<lparr>qa_questionId = ''q-1'', qa_apClass = ''AP Biology'',
                                qa_unit = ''Unit 1'', selectedAnswer = ''A'', wasCorrect = True,
                                timeTakenMs = 1200\<rparr>]\<rparr>)"
    by code_simp
  from recordAttempt_counters_invariant [OF registered run] registered run
  show ?thesis by simp
qed

text \<open>
  C6 on the source: for a key the user has no entry for, the first call answers from the
  plain object (1 attempt, mastery 100) while the saved subdocument keeps the zeros it was
  cast from, so the stored counters run one attempt behind: after the attempts correct,
  wrong, correct, correct the responses carry the masteries 100, 0, 50, 67, not
  100, 50, 67, 75.
\<close>

theorem recordAttempt_fresh_key_masteries:
  "masteries [True, False, True, True] (Some newUser) = [Inr 100, Inr 0, Inr 50, Inr 67]"
  by code_simp

text \<open>The percentage itself is the binary64 one: 23 correct attempts of 40 give 57, where
  the exact quotient, 57.5, rounds to 58.\<close>

lemma percentage_23_of_40:
  "percentage 23 40 = Some 57 \<and> (2 * (100 * 23) + 40) div (2 * 40) = (58::nat)"
  by code_simp

section \<open>Generating, storing and serving: what each call does\<close>

lemma generateAPQuestion_replied:
  assumes "className \<noteq> []" and "provider_reply ev = Inr q"
  shows "generateAPQuestion ev className unit w =
           (Inr \<lparr>g_answer = q, g_provider = ''openai'', g_model = selectModelForClass className,
                  g_questionId = (if s3_put_ok ev then Some (uuid ev) else None)\<rparr>,
            w\<lparr>blobs := (if s3_put_ok ev
                         then AList.update (s3Key (uuid ev))
                                \<lparr>sq_id = uuid ev, sq_apClass = className,
                                 sq_unit = (if unit = [] then ''General'' else unit),
                                 sq_question = q\<rparr> (blobs w)
                         else blobs w),
              effects := effects w @
                [ProviderReplied className unit q,
                 if s3_put_ok ev then BlobPut (s3Key (uuid ev)) else BlobPutFailed]\<rparr>)"
  using assms by (simp add: generateAPQuestion_def saveQuestionToS3_def Let_def)

lemma generateAPQuestion_failed:
  assumes "generateAPQuestion ev className unit w = (Inl e, w')"
  shows "w' = w \<and> (\<exists>message. e = GenerationError message) \<and>
         (className = [] \<or> (\<exists>message. provider_reply ev = Inl message))"
  using assms
  by (auto simp: generateAPQuestion_def saveQuestionToS3_def Let_def
           split: if_splits sum.splits prod.splits)

lemma generateAPQuestion_Inr:
  assumes "generateAPQuestion ev className unit w = (Inr result, w')"
  shows "className \<noteq> [] \<and> provider_reply ev = Inr (g_answer result)"
  using assms
  by (auto simp: generateAPQuestion_def saveQuestionToS3_def Let_def
           split: if_splits sum.splits prod.splits)

lemma getCachedQuestion_found:
  assumes "db_find_ok ev" and "findOne className unit (cache w) = Some d"
  shows "getCachedQuestion ev className unit w =
           (Inr \<lparr>s_answer = doc_question d, s_provider = ''cache'', s_model = ''cached'',
                  s_cached = True, s_questionId = doc_id d\<rparr>,
            w\<lparr>pending := pending w @ [(className, unit)]\<rparr>)"
  using assms by (simp add: getCachedQuestion_def)

lemma map_of_update_same: "map_of (AList.update k v al) k = Some v"
  by (simp add: update_conv')

lemma generateAndStoreQuestion_succeeded:
  assumes "generateAndStoreQuestion ev className unit w = (Inr r, w')"
  shows "className \<noteq> [] \<and> provider_reply ev = Inr (s_answer r) \<and> db_update_ok ev \<and>
         s_provider r = ''openai'' \<and> s_model r = selectModelForClass className \<and>
         \<not> s_cached r \<and>
         s_questionId r =
           doc_id (fst (findOneAndUpdate (objectId ev) className unit (s_answer r) (cache w))) \<and>
         cache w' = snd (findOneAndUpdate (objectId ev) className unit (s_answer r) (cache w)) \<and>
         blobs w' =
           (if s3_put_ok ev
            then AList.update (s3Key (uuid ev))
                   \<lparr>sq_id = uuid ev, sq_apClass = className,
                    sq_unit = (if unit = [] then ''General'' else unit),
                    sq_question = s_answer r\<rparr> (blobs w)
            else blobs w) \<and>
         pending w' = pending w \<and>
         effects w' = effects w @
           [ProviderReplied className unit (s_answer r),
            if s3_put_ok ev then BlobPut (s3Key (uuid ev)) else BlobPutFailed,
            CacheUpsert className unit]"
proof (cases "generateAPQuestion ev className unit w")
  case (Pair g w1)
  with assms obtain result where g: "g = Inr result"
    by (cases g) (auto simp: generateAndStoreQuestion_def)
  from Pair g have ok: "className \<noteq> []" "provider_reply ev = Inr (g_answer result)"
    using generateAPQuestion_Inr by blast+
  note gen = generateAPQuestion_replied [OF ok, of unit w]
  from assms Pair g have db: "db_update_ok ev"
    by (auto simp: generateAndStoreQuestion_def Let_def split: if_splits)
  let ?upd = "findOneAndUpdate (objectId ev) className unit (g_answer result) (cache w1)"
  from assms Pair g db have r: "r = \<lparr>s_answer = g_answer result, s_provider = g_provider result,
        s_model = g_model result, s_cached = False, s_questionId = doc_id (fst ?upd)\<rparr>"
    and w': "w' = w1\<lparr>cache := snd ?upd, effects := effects w1 @ [CacheUpsert className unit]\<rparr>"
    by (auto simp: generateAndStoreQuestion_def Let_def split: prod.splits)
  from gen Pair g have res: "result = \<lparr>g_answer = g_answer result, g_provider = ''openai'',
        g_model = selectModelForClass className,
        g_questionId = (if s3_put_ok ev then Some (uuid ev) else None)\<rparr>"
    and w1: "w1 = w\<lparr>blobs := (if s3_put_ok ev
                         then AList.update (s3Key (uuid ev))
                                \<lparr>sq_id = uuid ev, sq_apClass = className,
                                 sq_unit = (if unit = [] then ''General'' else unit),
                                 sq_question = g_answer result\<rparr> (blobs w)
                         else blobs w),
              effects := effects w @
                [ProviderReplied className unit (g_answer result),
                 if s3_put_ok ev then BlobPut (s3Key (uuid ev)) else BlobPutFailed]\<rparr>"
    by simp_all
  have p: "g_provider result = ''openai''" "g_model result = selectModelForClass className"
    by (subst res, simp)+
  show ?thesis
    using ok db by (simp add: r w' w1 p)
qed

section \<open>The cache collection under updates\<close>

lemma map_replaceFirst:
  "\<forall>x\<in>set xs. P x \<longrightarrow> f x = f y \<Longrightarrow> map f (replaceFirst P y xs) = map f xs"
  by (induction xs) auto

lemma find_replaceFirst_same:
  "find P xs = Some x \<Longrightarrow> P y \<Longrightarrow> find P (replaceFirst P y xs) = Some y"
  by (induction xs) (auto split: if_splits)

lemma find_replaceFirst_other:
  "\<forall>x. P x \<longrightarrow> \<not> Q x \<Longrightarrow> \<not> Q y \<Longrightarrow> find Q (replaceFirst P y xs) = find Q xs"
  by (induction xs) auto

lemma find_app:
  "find P (xs @ ys) = (case find P xs of None \<Rightarrow> find P ys | Some x \<Rightarrow> Some x)"
  by (induction xs) auto

lemma findOne_None_iff: "findOne c u docs = None \<longleftrightarrow> (c, u) \<notin> set (map docKey docs)"
  by (auto simp: findOne_def find_None_iff docKey_def)

lemma findOneAndUpdate_keys:
  "set (map docKey (snd (findOneAndUpdate newId c u q docs))) = insert (c, u) (set (map docKey docs))"
proof (cases "findOne c u docs")
  case None
  then show ?thesis by (auto simp: findOneAndUpdate_def Let_def docKey_def)
next
  case (Some d)
  let ?P = "\<lambda>d. doc_apClass d = c \<and> doc_unit d = u"
  let ?d' = "d\<lparr>doc_apClass := c, doc_unit := u, doc_question := q\<rparr>"
  have "map docKey (replaceFirst ?P ?d' docs) = map docKey docs"
    by (rule map_replaceFirst) (simp add: docKey_def)
  moreover from Some have "(c, u) \<in> set (map docKey docs)"
    using findOne_None_iff [of c u docs] by auto
  ultimately show ?thesis using Some by (auto simp: findOneAndUpdate_def Let_def)
qed

lemma findOneAndUpdate_distinct:
  assumes "distinct (map docKey docs)"
  shows "distinct (map docKey (snd (findOneAndUpdate newId c u q docs)))"
proof (cases "findOne c u docs")
  case None
  then have "(c, u) \<notin> set (map docKey docs)" by (simp add: findOne_None_iff)
  with assms None show ?thesis by (simp add: findOneAndUpdate_def Let_def docKey_def)
next
  case (Some d)
  let ?P = "\<lambda>d. doc_apClass d = c \<and> doc_unit d = u"
  let ?d' = "d\<lparr>doc_apClass := c, doc_unit := u, doc_question := q\<rparr>"
  have "map docKey (replaceFirst ?P ?d' docs) = map docKey docs"
    by (rule map_replaceFirst) (simp add: docKey_def)
  with assms Some show ?thesis by (simp add: findOneAndUpdate_def Let_def)
qed

lemma findOneAndUpdate_fst:
  "doc_apClass (fst (findOneAndUpdate newId c u q docs)) = c \<and>
   doc_unit (fst (findOneAndUpdate newId c u q docs)) = u \<and>
   doc_question (fst (findOneAndUpdate newId c u q docs)) = q \<and>
   doc_id (fst (findOneAndUpdate newId c u q docs)) =
     (case findOne c u docs of Some d \<Rightarrow> doc_id d | None \<Rightarrow> newId)"
  by (simp add: findOneAndUpdate_def Let_def split: option.splits)

lemma findOneAndUpdate_set:
  "set (snd (findOneAndUpdate newId c u q docs)) \<subseteq>
     insert (fst (findOneAndUpdate newId c u q docs)) (set docs)"
  using set_replaceFirst [of "\<lambda>d. doc_apClass d = c \<and> doc_unit d = u" _ docs]
  by (auto simp: findOneAndUpdate_def Let_def split: option.splits)

lemma findOneAndUpdate_reads_new:
  "findOne c u (snd (findOneAndUpdate newId c u q docs)) = Some (fst (findOneAndUpdate newId c u q docs))"
proof (cases "findOne c u docs")
  case None
  then have "find (\<lambda>d. doc_apClass d = c \<and> doc_unit d = u) docs = None" by (simp add: findOne_def)
  then show ?thesis using None
    by (simp add: findOneAndUpdate_def findOne_def Let_def find_app)
next
  case (Some d)
  then show ?thesis
    by (simp add: findOneAndUpdate_def findOne_def Let_def find_replaceFirst_same)
qed

lemma findOneAndUpdate_reads_other:
  assumes "(c', u') \<noteq> (c, u)"
  shows "findOne c' u' (snd (findOneAndUpdate newId c u q docs)) = findOne c' u' docs"
proof (cases "findOne c u docs")
  case None
  then show ?thesis using assms
    by (auto simp: findOneAndUpdate_def findOne_def Let_def find_app split: option.splits)
next
  case (Some d)
  have "find (\<lambda>d. doc_apClass d = c' \<and> doc_unit d = u')
          (replaceFirst (\<lambda>d. doc_apClass d = c \<and> doc_unit d = u)
             (d\<lparr>doc_apClass := c, doc_unit := u, doc_question := q\<rparr>) docs) =
        find (\<lambda>d. doc_apClass d = c' \<and> doc_unit d = u') docs"
    using assms by (intro find_replaceFirst_other) auto
  with Some show ?thesis by (simp add: findOneAndUpdate_def findOne_def Let_def)
qed

lemma generateAPQuestion_frame:
  assumes "generateAPQuestion ev className unit w = (r, w')"
  shows "cache w' = cache w \<and> pending w' = pending w \<and> (\<exists>es. effects w' = effects w @ es)"
  using assms
  by (auto simp: generateAPQuestion_def saveQuestionToS3_def Let_def
           split: if_splits sum.splits prod.splits)

lemma reachable_cacheOk: "reachable w \<Longrightarrow> cacheOk w"
proof (induction rule: reachable.induct)
  case initial
  show ?case by (simp add: cacheOk_def emptyWorld_def)
next
  case (generated w ev className unit r w')
  from generateAPQuestion_frame [OF generated.hyps(2)] generated.IH show ?case
    by (auto simp: cacheOk_def list_all_iff)
next
  case (upserted w className unit q newId)
  let ?d = "fst (findOneAndUpdate newId className unit q (cache w))"
  let ?docs = "snd (findOneAndUpdate newId className unit q (cache w))"
  have "distinct (map docKey ?docs)"
    using upserted.IH by (simp add: cacheOk_def findOneAndUpdate_distinct)
  moreover have "ProviderReplied (doc_apClass d) (doc_unit d) (doc_question d) \<in> set (effects w)"
    if "d \<in> set ?docs" for d
  proof -
    from that findOneAndUpdate_set [of newId className unit q "cache w"]
    have "d = ?d \<or> d \<in> set (cache w)" by auto
    then show ?thesis
      using upserted.hyps(2) upserted.IH findOneAndUpdate_fst [of newId className unit q "cache w"]
      by (auto simp: cacheOk_def list_all_iff)
  qed
  ultimately show ?case by (auto simp: cacheOk_def list_all_iff)
next
  case (queued w className unit d)
  then show ?case by (simp add: cacheOk_def)
next
  case (dequeued w job rest)
  then show ?case by (simp add: cacheOk_def)
next
  case (cleared w)
  then show ?case by (simp add: cacheOk_def clearCache_def)
qed

lemma reachable_generateAndStoreQuestion:
  assumes "reachable w" and "generateAndStoreQuestion ev className unit w = (r, w')"
  shows "reachable w'"
proof (cases "generateAPQuestion ev className unit w")
  case (Pair g w1)
  then have w1: "reachable w1" using assms(1) by (rule reachable.generated [rotated])
  show ?thesis
  proof (cases g)
    case (Inl e)
    with Pair assms(2) w1 show ?thesis by (simp add: generateAndStoreQuestion_def)
  next
    case (Inr result)
    show ?thesis
    proof (cases "db_update_ok ev")
      case False
      with Pair Inr assms(2) w1 show ?thesis by (simp add: generateAndStoreQuestion_def)
    next
      case True
      from Pair Inr have ok: "className \<noteq> []" "provider_reply ev = Inr (g_answer result)"
        using generateAPQuestion_Inr by blast+
      from generateAPQuestion_replied [OF ok, of unit w] Pair
      have "ProviderReplied className unit (g_answer result) \<in> set (effects w1)" by auto
      from reachable.upserted [OF w1 this, of "objectId ev"] Pair Inr True assms(2)
      show ?thesis by (simp add: generateAndStoreQuestion_def Let_def split: prod.splits)
    qed
  qed
qed

lemma reachable_getCachedQuestion:
  assumes "reachable w" and "getCachedQuestion ev className unit w = (r, w')"
  shows "reachable w'"
proof (cases "db_find_ok ev")
  case False
  with assms show ?thesis by (simp add: getCachedQuestion_def)
next
  case True
  show ?thesis
  proof (cases "findOne className unit (cache w)")
    case None
    with True assms(2) have "generateAndStoreQuestion ev className unit w = (r, w')"
      by (simp add: getCachedQuestion_def)
    with assms(1) show ?thesis by (rule reachable_generateAndStoreQuestion)
  next
    case (Some d)
    from reachable.queued [OF assms(1) Some] True Some assms(2) show ?thesis
      by (simp add: getCachedQuestion_def)
  qed
qed

lemma reachable_refreshQuestionBackground:
  assumes "reachable w" shows "reachable (refreshQuestionBackground ev className unit w)"
proof (cases "generateAndStoreQuestion ev className unit w")
  case (Pair r w')
  with assms have "reachable w'" by (simp add: reachable_generateAndStoreQuestion)
  with Pair show ?thesis by (cases r) (simp_all add: refreshQuestionBackground_def)
qed

lemma reachable_runPending:
  assumes "reachable w" shows "reachable (runPending ev w)"
proof (cases "pending w")
  case Nil
  with assms show ?thesis by (simp add: runPending_def)
next
  case (Cons job rest)
  obtain className unit where job: "job = (className, unit)" by (cases job)
  from reachable.dequeued [OF assms Cons] have "reachable (w\<lparr>pending := rest\<rparr>)" .
  then have "reachable (refreshQuestionBackground ev className unit (w\<lparr>pending := rest\<rparr>))"
    by (rule reachable_refreshQuestionBackground)
  with Cons job show ?thesis by (simp add: runPending_def)
qed

section \<open>Overlapping upserts\<close>

lemma reachable_concurrent: "reachable w \<Longrightarrow> reachableConcurrent [] w"
proof (induction rule: reachable.induct)
  case initial
  show ?case by (rule reachableConcurrent.initial)
next
  case (generated w ev className unit r w')
  then show ?case by (blast intro: reachableConcurrent.generated)
next
  case (upserted w className unit q newId)
  then show ?case by (blast intro: reachableConcurrent.upserted)
next
  case (queued w className unit d)
  then show ?case by (blast intro: reachableConcurrent.queued)
next
  case (dequeued w job rest)
  then show ?case by (blast intro: reachableConcurrent.dequeued)
next
  case (cleared w)
  then show ?case by (blast intro: reachableConcurrent.cleared)
qed

lemma concurrent_whole:
  assumes "reachableConcurrent ins w"
  shows "(\<forall>d\<in>set (cache w).
            ProviderReplied (doc_apClass d) (doc_unit d) (doc_question d) \<in> set (effects w)) \<and>
         (\<forall>(newId, c, u, q)\<in>set ins. ProviderReplied c u q \<in> set (effects w))"
  using assms
proof (induction rule: reachableConcurrent.induct)
  case initial
  show ?case by (simp add: emptyWorld_def)
next
  case (generated ins w ev className unit r w')
  from generateAPQuestion_frame [OF generated.hyps(2)] generated.IH show ?case
    by auto
next
  case (upserted ins w className unit q newId)
  let ?d = "fst (findOneAndUpdate newId className unit q (cache w))"
  let ?docs = "snd (findOneAndUpdate newId className unit q (cache w))"
  have "ProviderReplied (doc_apClass d) (doc_unit d) (doc_question d) \<in> set (effects w)"
    if "d \<in> set ?docs" for d
  proof -
    from that findOneAndUpdate_set [of newId className unit q "cache w"]
    have "d = ?d \<or> d \<in> set (cache w)" by auto
    then show ?thesis
      using upserted.hyps(2) upserted.IH findOneAndUpdate_fst [of newId className unit q "cache w"]
      by auto
  qed
  with upserted.IH show ?case by auto
next
  case (missed ins w className unit q newId)
  then show ?case by auto
next
  case (inserted ins w newId className unit q)
  have "set (remove1 (newId, className, unit, q) ins) \<subseteq> set ins" by (rule set_remove1_subset)
  with inserted show ?case by auto
next
  case (queued ins w className unit d)
  then show ?case by simp
next
  case (dequeued ins w job rest)
  then show ?case by simp
next
  case (cleared ins w)
  then show ?case by (simp add: clearCache_def)
qed

lemma concurrent_generateAndStoreQuestion:
  assumes "reachableConcurrent ins w" and "generateAndStoreQuestion ev className unit w = (r, w')"
  shows "reachableConcurrent ins w'"
proof (cases "generateAPQuestion ev className unit w")
  case (Pair g w1)
  then have w1: "reachableConcurrent ins w1"
    using assms(1) by (rule reachableConcurrent.generated [rotated])
  show ?thesis
  proof (cases g)
    case (Inl e)
    with Pair assms(2) w1 show ?thesis by (simp add: generateAndStoreQuestion_def)
  next
    case (Inr result)
    show ?thesis
    proof (cases "db_update_ok ev")
      case False
      with Pair Inr assms(2) w1 show ?thesis by (simp add: generateAndStoreQuestion_def)
    next
      case True
      from Pair Inr have ok: "className \<noteq> []" "provider_reply ev = Inr (g_answer result)"
        using generateAPQuestion_Inr by blast+
      from generateAPQuestion_replied [OF ok, of unit w] Pair
      have "ProviderReplied className unit (g_answer result) \<in> set (effects w1)" by auto
      from reachableConcurrent.upserted [OF w1 this, of "objectId ev"] Pair Inr True assms(2)
      show ?thesis by (simp add: generateAndStoreQuestion_def Let_def split: prod.splits)
    qed
  qed
qed

lemma refreshQuestionBackground_snd:
  "refreshQuestionBackground ev className unit w = snd (generateAndStoreQuestion ev className unit w)"
proof (cases "generateAndStoreQuestion ev className unit w")
  case (Pair r w')
  then show ?thesis by (cases r) (simp_all add: refreshQuestionBackground_def)
qed

lemma generateAndStoreQuestion_frame:
  "pending (snd (generateAndStoreQuestion ev className unit w)) = pending w"
proof (cases "generateAPQuestion ev className unit w")
  case (Pair g w1)
  from generateAPQuestion_frame [OF Pair] have "pending w1 = pending w" by simp
  with Pair show ?thesis
    by (cases g) (simp_all add: generateAndStoreQuestion_def Let_def split: prod.splits)
qed

lemma generateAndStoreQuestion_fails:
  assumes "className = [] \<or> (\<exists>message. provider_reply ev = Inl message) \<or> \<not> db_update_ok ev"
  shows "cache (snd (generateAndStoreQuestion ev className unit w)) = cache w"
proof (cases "generateAPQuestion ev className unit w")
  case (Pair g w1)
  from generateAPQuestion_frame [OF Pair] have c: "cache w1 = cache w" by simp
  show ?thesis
  proof (cases g)
    case (Inl e)
    with Pair c show ?thesis by (simp add: generateAndStoreQuestion_def)
  next
    case (Inr result)
    with Pair have "className \<noteq> []" "provider_reply ev = Inr (g_answer result)"
      using generateAPQuestion_Inr by blast+
    with assms have "\<not> db_update_ok ev" by auto
    with Pair Inr c show ?thesis by (simp add: generateAndStoreQuestion_def)
  qed
qed

lemma generateAndStoreQuestion_runs:
  assumes "className \<noteq> []" and "provider_reply ev = Inr q" and "db_update_ok ev"
  shows "generateAndStoreQuestion ev className unit w =
           (Inr \<lparr>s_answer = q, s_provider = ''openai'', s_model = selectModelForClass className,
                  s_cached = False,
                  s_questionId =
                    (case findOne className unit (cache w) of
                       Some d \<Rightarrow> doc_id d | None \<Rightarrow> objectId ev)\<rparr>,
            snd (generateAndStoreQuestion ev className unit w)) \<and>
         cache (snd (generateAndStoreQuestion ev className unit w)) =
           snd (findOneAndUpdate (objectId ev) className unit q (cache w))"
proof -
  note gen = generateAPQuestion_replied [OF assms(1,2), of unit w]
  obtain d docs where upd: "findOneAndUpdate (objectId ev) className unit q (cache w) = (d, docs)"
    by (cases "findOneAndUpdate (objectId ev) className unit q (cache w)")
  from findOneAndUpdate_fst [of "objectId ev" className unit q "cache w"] upd
  have d: "doc_id d = (case findOne className unit (cache w) of
                         Some d \<Rightarrow> doc_id d | None \<Rightarrow> objectId ev)"
    by simp
  show ?thesis
    using assms(3) by (simp add: generateAndStoreQuestion_def gen Let_def upd d)
qed

lemma findOneAndUpdate_length:
  "length (snd (findOneAndUpdate newId c u q docs)) =
     (if findOne c u docs = None then Suc (length docs) else length docs)"
proof -
  have "length (replaceFirst P y xs) = length xs" for P and y :: questionDoc and xs
    by (induction xs) auto
  then show ?thesis by (auto simp: findOneAndUpdate_def Let_def split: option.splits)
qed

lemma findOneAndUpdate_doc:
  "fst (findOneAndUpdate newId c u q docs) =
     \<lparr>doc_id = (case findOne c u docs of Some d \<Rightarrow> doc_id d | None \<Rightarrow> newId),
      doc_apClass = c, doc_unit = u, doc_question = q\<rparr>"
  by (simp add: findOneAndUpdate_def Let_def split: option.splits)

lemma concurrent_refreshQuestionBackground:
  assumes "reachableConcurrent ins w"
  shows "reachableConcurrent ins (refreshQuestionBackground ev className unit w)"
  unfolding refreshQuestionBackground_snd
  by (rule concurrent_generateAndStoreQuestion [OF assms]) (rule surjective_pairing)

lemma concurrent_runPending:
  assumes "reachableConcurrent ins w" shows "reachableConcurrent ins (runPending ev w)"
proof (cases "pending w")
  case Nil
  with assms show ?thesis by (simp add: runPending_def)
next
  case (Cons job rest)
  obtain className unit where job: "job = (className, unit)" by (cases job)
  from reachableConcurrent.dequeued [OF assms Cons]
  have "reachableConcurrent ins (w\<lparr>pending := rest\<rparr>)" .
  then have "reachableConcurrent ins
      (refreshQuestionBackground ev className unit (w\<lparr>pending := rest\<rparr>))"
    by (rule concurrent_refreshQuestionBackground)
  with Cons job show ?thesis by (simp add: runPending_def)
qed

lemma generateAndStoreQuestion_cache:
  assumes "cache w1 = cache w2"
  shows "cache (snd (generateAndStoreQuestion ev className unit w1)) =
         cache (snd (generateAndStoreQuestion ev className unit w2))"
proof (cases "className \<noteq> [] \<and> (\<exists>q. provider_reply ev = Inr q) \<and> db_update_ok ev")
  case True
  then obtain q where ok: "className \<noteq> []" "provider_reply ev = Inr q" "db_update_ok ev"
    by blast
  from generateAndStoreQuestion_runs [OF ok, of unit w1]
    generateAndStoreQuestion_runs [OF ok, of unit w2] assms
  show ?thesis by simp
next
  case False
  then have "className = [] \<or> (\<exists>message. provider_reply ev = Inl message) \<or> \<not> db_update_ok ev"
    by (cases "provider_reply ev") auto
  from generateAndStoreQuestion_fails [OF this, of unit w1]
    generateAndStoreQuestion_fails [OF this, of unit w2] assms
  show ?thesis by simp
qed

section \<open>Scenarios, evaluated\<close>

lemma findOne_emptyWorld: "findOne className unit (cache emptyWorld) = None"
  by (simp add: findOne_def emptyWorld_def)

lemma populated_eval:
  "getCachedQuestion allUp ''AP Biology'' ''Unit 1'' emptyWorld =
     (Inr \<lparr>s_answer = sampleQuestion, s_provider = ''openai'', s_model = ''gpt-5-mini'',
            s_cached = False, s_questionId = ''65f1a2b3c4d5e6f708192a3b''\<rparr>,
      \<lparr>cache = [\<lparr>doc_id = ''65f1a2b3c4d5e6f708192a3b'', doc_apClass = ''AP Biology'',
                 doc_unit = ''Unit 1'', doc_question = sampleQuestion\<rparr>],
       blobs = [(''questions/3b241101-e2bb-4255-8caf-4136c566a962.json'',
                 \<lparr>sq_id = ''3b241101-e2bb-4255-8caf-4136c566a962'', sq_apClass = ''AP Biology'',
                  sq_unit = ''Unit 1'', sq_question = sampleQuestion\<rparr>)],
       pending = [],
       effects = [ProviderReplied ''AP Biology'' ''Unit 1'' sampleQuestion,
                  BlobPut ''questions/3b241101-e2bb-4255-8caf-4136c566a962.json'',
                  CacheUpsert ''AP Biology'' ''Unit 1'']\<rparr>)"
  by code_simp

lemma populatedS3Down_eval:
  "getCachedQuestion s3Down ''AP Biology'' ''Unit 1'' emptyWorld =
     (Inr \<lparr>s_answer = sampleQuestion, s_provider = ''openai'', s_model = ''gpt-5-mini'',
            s_cached = False, s_questionId = ''65f1a2b3c4d5e6f708192a3b''\<rparr>,
      \<lparr>cache = [\<lparr>doc_id = ''65f1a2b3c4d5e6f708192a3b'', doc_apClass = ''AP Biology'',
                 doc_unit = ''Unit 1'', doc_question = sampleQuestion\<rparr>],
       blobs = [],
       pending = [],
       effects = [ProviderReplied ''AP Biology'' ''Unit 1'' sampleQuestion, BlobPutFailed,
                  CacheUpsert ''AP Biology'' ''Unit 1'']\<rparr>)"
  by code_simp

lemma populated_world:
  "populated =
     \<lparr>cache = [\<lparr>doc_id = ''65f1a2b3c4d5e6f708192a3b'', doc_apClass = ''AP Biology'',
                 doc_unit = ''Unit 1'', doc_question = sampleQuestion\<rparr>],
       blobs = [(''questions/3b241101-e2bb-4255-8caf-4136c566a962.json'',
                 \<lparr>sq_id = ''3b241101-e2bb-4255-8caf-4136c566a962'', sq_apClass = ''AP Biology'',
                  sq_unit = ''Unit 1'', sq_question = sampleQuestion\<rparr>)],
       pending = [],
       effects = [ProviderReplied ''AP Biology'' ''Unit 1'' sampleQuestion,
                  BlobPut ''questions/3b241101-e2bb-4255-8caf-4136c566a962.json'',
                  CacheUpsert ''AP Biology'' ''Unit 1'']\<rparr>"
  by (simp add: populated_def populated_eval)

lemma populated_findOne:
  "findOne ''AP Biology'' ''Unit 1'' (cache populated) =
     Some \<lparr>doc_id = ''65f1a2b3c4d5e6f708192a3b'', doc_apClass = ''AP Biology'',
           doc_unit = ''Unit 1'', doc_question = sampleQuestion\<rparr>"
  by (simp add: populated_world findOne_def)

lemma reachable_populated: "reachable populated"
  unfolding populated_def
  by (rule reachable_getCachedQuestion [OF reachable.initial]) (rule surjective_pairing)

lemma reachable_populatedS3Down: "reachable populatedS3Down"
  unfolding populatedS3Down_def
  by (rule reachable_getCachedQuestion [OF reachable.initial]) (rule surjective_pairing)

lemma reachable_twoHits: "reachable twoHits"
  unfolding twoHits_def
  by (intro reachable_getCachedQuestion [OF _ surjective_pairing] reachable_populated)

lemma pending_twoHits:
  "pending twoHits = [(''AP Biology'', ''Unit 1''), (''AP Biology'', ''Unit 1'')]"
proof -
  have up: "db_find_ok allUp" by (simp add: allUp_def)
  let ?w1 = "populated\<lparr>pending := pending populated @ [(''AP Biology'', ''Unit 1'')]\<rparr>"
  have one: "snd (getCachedQuestion allUp ''AP Biology'' ''Unit 1'' populated) = ?w1"
    by (simp add: getCachedQuestion_found [OF up populated_findOne])
  have "findOne ''AP Biology'' ''Unit 1'' (cache ?w1) =
     Some \<lparr>doc_id = ''65f1a2b3c4d5e6f708192a3b'', doc_apClass = ''AP Biology'',
           doc_unit = ''Unit 1'', doc_question = sampleQuestion\<rparr>"
    using populated_findOne by simp
  from getCachedQuestion_found [OF up this]
  have "pending twoHits = pending ?w1 @ [(''AP Biology'', ''Unit 1'')]"
    by (simp add: twoHits_def one)
  moreover have "pending populated = []" by (simp add: populated_world)
  ultimately show ?thesis by simp
qed

lemma reachable_bothGenerated: "reachable bothGenerated"
proof -
  from reachable.dequeued [OF reachable_twoHits pending_twoHits]
  have "reachable (twoHits\<lparr>pending := [(''AP Biology'', ''Unit 1'')]\<rparr>)" .
  from reachable.dequeued [OF this, of "(''AP Biology'', ''Unit 1'')" "[]"]
  have "reachable (twoHits\<lparr>pending := []\<rparr>)" by simp
  then have "reachable (snd (generateAPQuestion refreshA ''AP Biology'' ''Unit 1''
       (twoHits\<lparr>pending := []\<rparr>)))"
    by (rule reachable.generated) (rule surjective_pairing)
  then show ?thesis unfolding bothGenerated_def
    by (rule reachable.generated) (rule surjective_pairing)
qed

lemma effects_bothGenerated:
  "ProviderReplied ''AP Biology'' ''Unit 1'' questionA \<in> set (effects bothGenerated) \<and>
   ProviderReplied ''AP Biology'' ''Unit 1'' questionB \<in> set (effects bothGenerated)"
proof -
  have a: "''AP Biology'' \<noteq> []" "provider_reply refreshA = Inr questionA"
    and b: "provider_reply refreshB = Inr questionB"
    by (simp_all add: refreshA_def refreshB_def allUp_def)
  show ?thesis
    unfolding bothGenerated_def
    by (simp add: generateAPQuestion_replied [OF a] generateAPQuestion_replied [OF a(1) b])
qed

lemma reachable_interleaved: "reachable interleaved"
proof -
  from effects_bothGenerated have b: "ProviderReplied ''AP Biology'' ''Unit 1'' questionB
      \<in> set (effects bothGenerated)" ..
  from reachable.upserted [OF reachable_bothGenerated b, of "objectId refreshB"]
  have rb: "reachable bWritten" by (simp add: bWritten_def)
  from effects_bothGenerated have "ProviderReplied ''AP Biology'' ''Unit 1'' questionA
      \<in> set (effects bWritten)" by (simp add: bWritten_def)
  from reachable.upserted [OF rb this, of "objectId refreshA"]
  show ?thesis by (simp add: interleaved_def)
qed

lemma cache_twoHits: "cache twoHits = cache populated"
  by (simp add: twoHits_def getCachedQuestion_def populated_findOne allUp_def)

lemma bothMissed_eval:
  "cache bothMissed = [] \<and>
   ProviderReplied ''AP Biology'' ''Unit 1'' questionA \<in> set (effects bothMissed) \<and>
   ProviderReplied ''AP Biology'' ''Unit 1'' questionB \<in> set (effects bothMissed)"
proof -
  have a: "''AP Biology'' \<noteq> []" "provider_reply refreshA = Inr questionA"
    and b: "provider_reply refreshB = Inr questionB"
    by (simp_all add: refreshA_def refreshB_def allUp_def)
  show ?thesis
    unfolding bothMissed_def
    by (simp add: generateAPQuestion_replied [OF a] generateAPQuestion_replied [OF a(1) b]
          emptyWorld_def)
qed

lemma concurrent_bothInserted: "reachableConcurrent [] bothInserted"
proof -
  let ?a = "(objectId refreshA, ''AP Biology'', ''Unit 1'', questionA)"
  let ?b = "(objectId refreshB, ''AP Biology'', ''Unit 1'', questionB)"
  have "reachableConcurrent []
      (snd (generateAPQuestion refreshA ''AP Biology'' ''Unit 1'' emptyWorld))"
    by (rule reachableConcurrent.generated [OF reachableConcurrent.initial])
      (rule surjective_pairing)
  then have g: "reachableConcurrent [] bothMissed" unfolding bothMissed_def
    by (rule reachableConcurrent.generated) (rule surjective_pairing)
  have none: "findOne ''AP Biology'' ''Unit 1'' (cache bothMissed) = None"
    using bothMissed_eval by (simp add: findOne_def)
  from bothMissed_eval have pa: "ProviderReplied ''AP Biology'' ''Unit 1'' questionA
      \<in> set (effects bothMissed)"
    and pb: "ProviderReplied ''AP Biology'' ''Unit 1'' questionB \<in> set (effects bothMissed)"
    by simp_all
  from reachableConcurrent.missed [OF g pa none, of "objectId refreshA"]
  have "reachableConcurrent [?a] bothMissed" by simp
  from reachableConcurrent.missed [OF this pb none, of "objectId refreshB"]
  have m: "reachableConcurrent [?a, ?b] bothMissed" by simp
  from reachableConcurrent.inserted [OF m, of "objectId refreshA" "''AP Biology''" "''Unit 1''"
    questionA]
  have ia: "reachableConcurrent [?b] aInserted" by (simp add: aInserted_def)
  from reachableConcurrent.inserted [OF ia, of "objectId refreshB" "''AP Biology''" "''Unit 1''"
    questionB]
  show ?thesis by (simp add: bothInserted_def)
qed

lemma cache_bothInserted:
  "cache bothInserted =
     [\<lparr>doc_id = ''65f1a2b3c4d5e6f708192a3c'', doc_apClass = ''AP Biology'',
       doc_unit = ''Unit 1'', doc_question = questionA\<rparr>,
      \<lparr>doc_id = ''65f1a2b3c4d5e6f708192a3d'', doc_apClass = ''AP Biology'',
       doc_unit = ''Unit 1'', doc_question = questionB\<rparr>]"
  using bothMissed_eval
  by (simp add: bothInserted_def aInserted_def refreshA_def refreshB_def)

lemma cache_interleaved:
  "cache interleaved =
     [\<lparr>doc_id = ''65f1a2b3c4d5e6f708192a3b'', doc_apClass = ''AP Biology'',
       doc_unit = ''Unit 1'', doc_question = questionA\<rparr>]"
proof -
  have a: "''AP Biology'' \<noteq> []" "provider_reply refreshA = Inr questionA"
    and b: "provider_reply refreshB = Inr questionB"
    by (simp_all add: refreshA_def refreshB_def allUp_def)
  have "cache twoHits = cache populated"
    by (simp add: twoHits_def getCachedQuestion_def populated_findOne allUp_def)
  then have "cache bothGenerated = cache populated"
    unfolding bothGenerated_def
    by (simp add: generateAPQuestion_replied [OF a] generateAPQuestion_replied [OF a(1) b])
  then show ?thesis
    by (simp add: interleaved_def bWritten_def populated_world findOneAndUpdate_def findOne_def
          Let_def)
qed

section \<open>The question cache and the blob store\<close>

text \<open>
  C1, as the source has it. After a call of \<^const>\<open>generateAndStoreQuestion\<close>, or of
  \<^const>\<open>getCachedQuestion\<close> for a key without an entry, that succeeded: when the put to the
  bucket succeeded, reading the bucket under the id that the put issued succeeds and gives
  the question that the call returned, with its class and unit; when the put failed, the
  bucket is as it was.
\<close>

theorem generated_question_is_stored:
  assumes "generateAndStoreQuestion ev className unit w = (Inr r, w') \<or>
           (findOne className unit (cache w) = None \<and>
            getCachedQuestion ev className unit w = (Inr r, w'))"
  shows "(s3_put_ok ev \<longrightarrow>
            getQuestionFromS3 True (uuid ev) w' =
              Inr \<lparr>sq_id = uuid ev, sq_apClass = className,
                    sq_unit = (if unit = [] then ''General'' else unit),
                    sq_question = s_answer r\<rparr>) \<and>
         (\<not> s3_put_ok ev \<longrightarrow> blobs w' = blobs w)"
proof -
  from assms have "generateAndStoreQuestion ev className unit w = (Inr r, w')"
    by (auto simp: getCachedQuestion_def split: if_splits)
  from generateAndStoreQuestion_succeeded [OF this] show ?thesis
    by (simp add: getQuestionFromS3_def map_of_update_same)
qed

text \<open>
  C1 at work: a first request for AP Biology, Unit 1 with everything working.
\<close>

theorem generated_question_is_stored_witness:
  "findOne ''AP Biology'' ''Unit 1'' (cache emptyWorld) = None \<and>
   getCachedQuestion allUp ''AP Biology'' ''Unit 1'' emptyWorld =
     (Inr \<lparr>s_answer = sampleQuestion, s_provider = ''openai'', s_model = ''gpt-5-mini'',
            s_cached = False, s_questionId = ''65f1a2b3c4d5e6f708192a3b''\<rparr>, populated) \<and>
   getQuestionFromS3 True ''3b241101-e2bb-4255-8caf-4136c566a962'' populated =
     Inr \<lparr>sq_id = ''3b241101-e2bb-4255-8caf-4136c566a962'', sq_apClass = ''AP Biology'',
           sq_unit = ''Unit 1'', sq_question = sampleQuestion\<rparr>"
proof -
  have run: "getCachedQuestion allUp ''AP Biology'' ''Unit 1'' emptyWorld =
     (Inr \<lparr>s_answer = sampleQuestion, s_provider = ''openai'', s_model = ''gpt-5-mini'',
            s_cached = False, s_questionId = ''65f1a2b3c4d5e6f708192a3b''\<rparr>, populated)"
    by (simp add: populated_def populated_eval)
  have up: "s3_put_ok allUp" "uuid allUp = ''3b241101-e2bb-4255-8caf-4136c566a962''"
    by (simp_all add: allUp_def)
  from generated_question_is_stored [OF disjI2, OF conjI, OF findOne_emptyWorld run] up
    findOne_emptyWorld run
  show ?thesis by simp
qed

text \<open>
  C1, as the specification words it, fails: a first request during which the put failed
  succeeds all the same, and reading the bucket with the \<^verbatim>\<open>questionId\<close> it returned finds
  nothing: the bucket is empty.
\<close>

theorem returned_question_not_in_blob_store:
  "fst (getCachedQuestion s3Down ''AP Biology'' ''Unit 1'' emptyWorld) =
     Inr \<lparr>s_answer = sampleQuestion, s_provider = ''openai'', s_model = ''gpt-5-mini'',
           s_cached = False, s_questionId = ''65f1a2b3c4d5e6f708192a3b''\<rparr> \<and>
   getQuestionFromS3 True ''65f1a2b3c4d5e6f708192a3b''
       (snd (getCachedQuestion s3Down ''AP Biology'' ''Unit 1'' emptyWorld)) =
     Inl (NotFoundError ''Question not found in S3'') \<and>
   blobs (snd (getCachedQuestion s3Down ''AP Biology'' ''Unit 1'' emptyWorld)) = []"
  unfolding populatedS3Down_eval by (simp add: getQuestionFromS3_def)

text \<open>
  Which id a call returns. Also when the put succeeds, the \<^verbatim>\<open>questionId\<close> of the result is
  the \<^verbatim>\<open>_id\<close> of the cache document (\<^verbatim>\<open>cachedQuestion._id.toString()\<close>) and not the id of
  the put, which \<^const>\<open>generateAndStoreQuestion\<close> drops: reading the bucket with the
  returned id fails, reading it with the id of the put gives the question. (\<^verbatim>\<open>API.md\<close>
  documents \<^verbatim>\<open>questionId\<close> as the S3 key, and the history route reads the bucket with the
  ids that attempts were recorded under.)
\<close>

lemma returned_id_is_not_the_blob_id:
  "fst (getCachedQuestion allUp ''AP Biology'' ''Unit 1'' emptyWorld) =
     Inr \<lparr>s_answer = sampleQuestion, s_provider = ''openai'', s_model = ''gpt-5-mini'',
           s_cached = False, s_questionId = ''65f1a2b3c4d5e6f708192a3b''\<rparr> \<and>
   getQuestionFromS3 True ''65f1a2b3c4d5e6f708192a3b''
       (snd (getCachedQuestion allUp ''AP Biology'' ''Unit 1'' emptyWorld)) =
     Inl (NotFoundError ''Question not found in S3'') \<and>
   getQuestionFromS3 True ''3b241101-e2bb-4255-8caf-4136c566a962''
       (snd (getCachedQuestion allUp ''AP Biology'' ''Unit 1'' emptyWorld)) =
     Inr \<lparr>sq_id = ''3b241101-e2bb-4255-8caf-4136c566a962'', sq_apClass = ''AP Biology'',
           sq_unit = ''Unit 1'', sq_question = sampleQuestion\<rparr>"
  unfolding populated_eval by code_simp

text \<open>
  C2, as the source has it. Every generated question, of a request or of a background
  refresh (both are \<^const>\<open>generateAndStoreQuestion\<close>), has the write to the bucket attempted
  before the cache entry is written: the effects of a successful call are, in this order,
  the provider's reply, the put or its failure, and the update of the cache. When the put
  succeeded the bucket holds the question under the key of the new id; when it failed the
  bucket is unchanged, and the entry that holds the question is written all the same.
\<close>

theorem generateAndStoreQuestion_order:
  assumes "generateAndStoreQuestion ev className unit w = (Inr r, w')"
  shows "effects w' = effects w @
           [ProviderReplied className unit (s_answer r),
            if s3_put_ok ev then BlobPut (s3Key (uuid ev)) else BlobPutFailed,
            CacheUpsert className unit] \<and>
         (s3_put_ok ev \<longrightarrow>
            map_of (blobs w') (s3Key (uuid ev)) =
              Some \<lparr>sq_id = uuid ev, sq_apClass = className,
                    sq_unit = (if unit = [] then ''General'' else unit),
                    sq_question = s_answer r\<rparr>) \<and>
         (\<not> s3_put_ok ev \<longrightarrow> blobs w' = blobs w) \<and>
         (\<exists>d. findOne className unit (cache w') = Some d \<and> doc_question d = s_answer r \<and>
              doc_id d = s_questionId r) \<and>
         refreshQuestionBackground ev className unit w = w'"
proof -
  note run = generateAndStoreQuestion_succeeded [OF assms]
  have "\<exists>d. findOne className unit (cache w') = Some d \<and> doc_question d = s_answer r \<and>
              doc_id d = s_questionId r"
    using run findOneAndUpdate_reads_new [of className unit "objectId ev" "s_answer r" "cache w"]
      findOneAndUpdate_fst [of "objectId ev" className unit "s_answer r" "cache w"]
    by simp
  moreover have "refreshQuestionBackground ev className unit w = w'"
    using assms by (simp add: refreshQuestionBackground_def)
  ultimately show ?thesis using run by (simp add: map_of_update_same)
qed


text \<open>
  C2 at work: a first request with everything working.
\<close>

theorem generateAndStoreQuestion_order_witness:
  "generateAndStoreQuestion allUp ''AP Biology'' ''Unit 1'' emptyWorld =
     (Inr \<lparr>s_answer = sampleQuestion, s_provider = ''openai'', s_model = ''gpt-5-mini'',
            s_cached = False, s_questionId = ''65f1a2b3c4d5e6f708192a3b''\<rparr>, populated) \<and>
   effects populated =
     [ProviderReplied ''AP Biology'' ''Unit 1'' sampleQuestion,
      BlobPut (s3Key ''3b241101-e2bb-4255-8caf-4136c566a962''),
      CacheUpsert ''AP Biology'' ''Unit 1''] \<and>
   map_of (blobs populated) (s3Key ''3b241101-e2bb-4255-8caf-4136c566a962'') =
     Some \<lparr>sq_id = ''3b241101-e2bb-4255-8caf-4136c566a962'', sq_apClass = ''AP Biology'',
           sq_unit = ''Unit 1'', sq_question = sampleQuestion\<rparr> \<and>
   refreshQuestionBackground allUp ''AP Biology'' ''Unit 1'' emptyWorld = populated"
proof -
  have miss: "getCachedQuestion allUp ''AP Biology'' ''Unit 1'' emptyWorld =
              generateAndStoreQuestion allUp ''AP Biology'' ''Unit 1'' emptyWorld"
    by (simp add: getCachedQuestion_def allUp_def emptyWorld_def findOne_def)
  have run: "generateAndStoreQuestion allUp ''AP Biology'' ''Unit 1'' emptyWorld =
     (Inr \<lparr>s_answer = sampleQuestion, s_provider = ''openai'', s_model = ''gpt-5-mini'',
            s_cached = False, s_questionId = ''65f1a2b3c4d5e6f708192a3b''\<rparr>, populated)"
    unfolding populated_def miss [symmetric] by (simp add: populated_eval)
  have up: "s3_put_ok allUp" "uuid allUp = ''3b241101-e2bb-4255-8caf-4136c566a962''"
    by (simp_all add: allUp_def)
  from generateAndStoreQuestion_order [OF run] up run
  show ?thesis by (simp add: emptyWorld_def)
qed

text \<open>
  C2, as the specification words it, fails: after a first request during which the put
  failed, the service is in a state whose cache holds an entry while the bucket is empty,
  so the question of that entry was never persisted.
\<close>

theorem cache_entry_without_blob:
  "reachable populatedS3Down \<and>
   cache populatedS3Down =
     [\<lparr>doc_id = ''65f1a2b3c4d5e6f708192a3b'', doc_apClass = ''AP Biology'',
       doc_unit = ''Unit 1'', doc_question = sampleQuestion\<rparr>] \<and>
   blobs populatedS3Down = []"
  using reachable_populatedS3Down by (simp add: populatedS3Down_def populatedS3Down_eval)

text \<open>
  C3, as the source has it. When no entry exists for the key, the provider replies and the
  write to the bucket fails, the failure is swallowed inside \<^const>\<open>generateAPQuestion\<close>:
  the call returns the generated question, not served from the cache, and the entry is
  inserted; the bucket is unchanged.
\<close>

theorem getCachedQuestion_blob_write_fails:
  assumes "db_find_ok ev" and "findOne className unit (cache w) = None"
    and "className \<noteq> []" and "provider_reply ev = Inr q"
    and "\<not> s3_put_ok ev" and "db_update_ok ev"
  shows "getCachedQuestion ev className unit w =
           (Inr \<lparr>s_answer = q, s_provider = ''openai'', s_model = selectModelForClass className,
                  s_cached = False, s_questionId = objectId ev\<rparr>,
            w\<lparr>cache := cache w @ [\<lparr>doc_id = objectId ev, doc_apClass = className,
                                     doc_unit = unit, doc_question = q\<rparr>],
              effects := effects w @ [ProviderReplied className unit q, BlobPutFailed,
                                      CacheUpsert className unit]\<rparr>)"
  using assms
  by (simp add: getCachedQuestion_def generateAndStoreQuestion_def
        generateAPQuestion_replied findOneAndUpdate_def Let_def)

text \<open>
  C3 at work: the first request for AP Biology, Unit 1 while the bucket is down.
\<close>

theorem getCachedQuestion_blob_write_fails_witness:
  "getCachedQuestion s3Down ''AP Biology'' ''Unit 1'' emptyWorld =
     (Inr \<lparr>s_answer = sampleQuestion, s_provider = ''openai'', s_model = ''gpt-5-mini'',
            s_cached = False, s_questionId = ''65f1a2b3c4d5e6f708192a3b''\<rparr>,
      \<lparr>cache = [\<lparr>doc_id = ''65f1a2b3c4d5e6f708192a3b'', doc_apClass = ''AP Biology'',
                 doc_unit = ''Unit 1'', doc_question = sampleQuestion\<rparr>],
       blobs = [], pending = [],
       effects = [ProviderReplied ''AP Biology'' ''Unit 1'' sampleQuestion, BlobPutFailed,
                  CacheUpsert ''AP Biology'' ''Unit 1'']\<rparr>)"
proof -
  have h: "db_find_ok s3Down" "''AP Biology'' \<noteq> []" "provider_reply s3Down = Inr sampleQuestion"
    "\<not> s3_put_ok s3Down" "db_update_ok s3Down" "objectId s3Down = ''65f1a2b3c4d5e6f708192a3b''"
    by (simp_all add: s3Down_def allUp_def)
  have m: "selectModelForClass ''AP Biology'' = ''gpt-5-mini''" by code_simp
  from getCachedQuestion_blob_write_fails [OF h(1) findOne_emptyWorld h(2,3,4,5), of "''Unit 1''"]
  show ?thesis by (simp add: h(6) m emptyWorld_def)
qed

text \<open>
  C3, as the specification words it, fails: no entry, a reply of the provider, a failed
  put, and the caller gets a question, not a storage error.
\<close>

theorem blob_write_failure_not_propagated:
  "findOne ''AP Biology'' ''Unit 1'' (cache emptyWorld) = None \<and>
   provider_reply s3Down = Inr sampleQuestion \<and> \<not> s3_put_ok s3Down \<and>
   fst (getCachedQuestion s3Down ''AP Biology'' ''Unit 1'' emptyWorld) =
     Inr \<lparr>s_answer = sampleQuestion, s_provider = ''openai'', s_model = ''gpt-5-mini'',
           s_cached = False, s_questionId = ''65f1a2b3c4d5e6f708192a3b''\<rparr>"
proof -
  have "fst (getCachedQuestion s3Down ''AP Biology'' ''Unit 1'' emptyWorld) =
     Inr \<lparr>s_answer = sampleQuestion, s_provider = ''openai'', s_model = ''gpt-5-mini'',
           s_cached = False, s_questionId = ''65f1a2b3c4d5e6f708192a3b''\<rparr>"
    by (simp add: populatedS3Down_eval)
  moreover have "provider_reply s3Down = Inr sampleQuestion" "\<not> s3_put_ok s3Down"
    by (simp_all add: s3Down_def allUp_def)
  ultimately show ?thesis by (simp add: findOne_emptyWorld)
qed

text \<open>
  C4, as the source has it. A call for a key that has an entry returns the entry at once,
  marked as served from the cache, and queues one background refresh for the key whatever
  is queued already: the queue grows by the key, and holds one more refresh of the key
  than before.
\<close>

theorem getCachedQuestion_hit_schedules:
  assumes "db_find_ok ev" and "findOne className unit (cache w) = Some d"
  shows "getCachedQuestion ev className unit w =
           (Inr \<lparr>s_answer = doc_question d, s_provider = ''cache'', s_model = ''cached'',
                  s_cached = True, s_questionId = doc_id d\<rparr>,
            w\<lparr>pending := pending w @ [(className, unit)]\<rparr>) \<and>
         count_list (pending (snd (getCachedQuestion ev className unit w))) (className, unit) =
           Suc (count_list (pending w) (className, unit))"
proof -
  have "count_list (xs @ [x]) x = Suc (count_list xs x)" for xs :: "(string \<times> string) list" and x
    by (induction xs) simp_all
  with getCachedQuestion_found [OF assms] show ?thesis by simp
qed

text \<open>
  C4 at work: the second request for AP Biology, Unit 1.
\<close>

theorem getCachedQuestion_hit_schedules_witness:
  "getCachedQuestion allUp ''AP Biology'' ''Unit 1'' populated =
     (Inr \<lparr>s_answer = sampleQuestion, s_provider = ''cache'', s_model = ''cached'',
            s_cached = True, s_questionId = ''65f1a2b3c4d5e6f708192a3b''\<rparr>,
      populated\<lparr>pending := [(''AP Biology'', ''Unit 1'')]\<rparr>) \<and>
   count_list (pending (snd (getCachedQuestion allUp ''AP Biology'' ''Unit 1'' populated)))
     (''AP Biology'', ''Unit 1'') = 1"
proof -
  have up: "db_find_ok allUp" by (simp add: allUp_def)
  have "pending populated = []" by (simp add: populated_world)
  with getCachedQuestion_hit_schedules [OF up populated_findOne] show ?thesis by simp
qed

text \<open>
  C4, as the specification words it, fails: after a first request and two more, two
  refreshes of the same key are queued, the second queued while the first was waiting.
\<close>

theorem two_refreshes_of_one_key_queued:
  "reachable twoHits \<and>
   pending twoHits = [(''AP Biology'', ''Unit 1''), (''AP Biology'', ''Unit 1'')]"
  using reachable_twoHits pending_twoHits by simp

text \<open>
  C7. When no entry exists for the key and the provider fails, \<^const>\<open>getCachedQuestion\<close>
  fails with the generation error and leaves the whole state as it was (no cache entry is
  created); a later call for the same key finds no entry again and goes through
  \<^const>\<open>generateAndStoreQuestion\<close>.
\<close>

theorem getCachedQuestion_generator_fails:
  assumes "db_find_ok ev" and "findOne className unit (cache w) = None"
    and "provider_reply ev = Inl message"
  shows "(\<exists>m. getCachedQuestion ev className unit w = (Inl (GenerationError m), w)) \<and>
         (\<forall>ev'. db_find_ok ev' \<longrightarrow>
            getCachedQuestion ev' className unit (snd (getCachedQuestion ev className unit w)) =
            generateAndStoreQuestion ev' className unit w)"
proof -
  have gen: "\<exists>m. generateAPQuestion ev className unit w = (Inl (GenerationError m), w)"
    using assms(3) by (simp add: generateAPQuestion_def)
  then obtain m where "generateAPQuestion ev className unit w = (Inl (GenerationError m), w)" ..
  then have run: "getCachedQuestion ev className unit w = (Inl (GenerationError m), w)"
    using assms(1,2) by (simp add: getCachedQuestion_def generateAndStoreQuestion_def)
  moreover have "getCachedQuestion ev' className unit w = generateAndStoreQuestion ev' className unit w"
    if "db_find_ok ev'" for ev'
    using that assms(2) by (simp add: getCachedQuestion_def)
  ultimately show ?thesis by simp
qed

text \<open>
  C7 at work: the provider refuses a question for AP Biology, Unit 99.
\<close>

theorem getCachedQuestion_generator_fails_witness:
  "getCachedQuestion providerDown ''AP Biology'' ''Unit 99'' emptyWorld =
     (Inl (GenerationError ''Content refused by provider''), emptyWorld) \<and>
   getCachedQuestion allUp ''AP Biology'' ''Unit 99''
     (snd (getCachedQuestion providerDown ''AP Biology'' ''Unit 99'' emptyWorld)) =
   generateAndStoreQuestion allUp ''AP Biology'' ''Unit 99'' emptyWorld"
proof -
  have h: "db_find_ok providerDown" "provider_reply providerDown = Inl ''Content refused by provider''"
    "db_find_ok allUp"
    by (simp_all add: providerDown_def allUp_def)
  have run: "getCachedQuestion providerDown ''AP Biology'' ''Unit 99'' emptyWorld =
     (Inl (GenerationError ''Content refused by provider''), emptyWorld)"
    by (simp add: getCachedQuestion_def generateAndStoreQuestion_def generateAPQuestion_def h
          findOne_emptyWorld)
  from getCachedQuestion_generator_fails [OF h(1) findOne_emptyWorld h(2), of "''AP Biology''" "''Unit 99''"]
    h(3) run
  show ?thesis by simp
qed

text \<open>
  C8. Two calls in a row for a key that has an entry, nothing running in between, return
  the same answer: the entry's question under the entry's id, marked as served from the
  cache.
\<close>

theorem getCachedQuestion_twice:
  assumes "db_find_ok ev1" and "db_find_ok ev2"
    and "findOne className unit (cache w) = Some d"
    and "getCachedQuestion ev1 className unit w = (r1, w1)"
    and "getCachedQuestion ev2 className unit w1 = (r2, w2)"
  shows "r2 = r1 \<and>
         r2 = Inr \<lparr>s_answer = doc_question d, s_provider = ''cache'', s_model = ''cached'',
                   s_cached = True, s_questionId = doc_id d\<rparr>"
proof -
  from assms(1,3,4) have r1: "r1 = Inr \<lparr>s_answer = doc_question d, s_provider = ''cache'',
      s_model = ''cached'', s_cached = True, s_questionId = doc_id d\<rparr>"
    and w1: "w1 = w\<lparr>pending := pending w @ [(className, unit)]\<rparr>"
    by (simp_all add: getCachedQuestion_def)
  from w1 have "cache w1 = cache w" by simp
  with assms(2,3,5) have "r2 = Inr \<lparr>s_answer = doc_question d, s_provider = ''cache'',
      s_model = ''cached'', s_cached = True, s_questionId = doc_id d\<rparr>"
    by (simp add: getCachedQuestion_def)
  with r1 show ?thesis by simp
qed

text \<open>
  C8 at work: the second and third request for AP Biology, Unit 1.
\<close>

theorem getCachedQuestion_twice_witness:
  "fst (getCachedQuestion allUp ''AP Biology'' ''Unit 1''
          (snd (getCachedQuestion allUp ''AP Biology'' ''Unit 1'' populated))) =
   fst (getCachedQuestion allUp ''AP Biology'' ''Unit 1'' populated) \<and>
   fst (getCachedQuestion allUp ''AP Biology'' ''Unit 1''
          (snd (getCachedQuestion allUp ''AP Biology'' ''Unit 1'' populated))) =
     Inr \<lparr>s_answer = sampleQuestion, s_provider = ''cache'', s_model = ''cached'',
           s_cached = True, s_questionId = ''65f1a2b3c4d5e6f708192a3b''\<rparr>"
proof -
  have up: "db_find_ok allUp" by (simp add: allUp_def)
  note twice = getCachedQuestion_twice
    [OF up up populated_findOne surjective_pairing surjective_pairing]
  from twice have "fst (getCachedQuestion allUp ''AP Biology'' ''Unit 1''
          (snd (getCachedQuestion allUp ''AP Biology'' ''Unit 1'' populated))) =
     fst (getCachedQuestion allUp ''AP Biology'' ''Unit 1'' populated)" by (rule conjunct1)
  moreover from twice [THEN conjunct2]
  have "fst (getCachedQuestion allUp ''AP Biology'' ''Unit 1''
          (snd (getCachedQuestion allUp ''AP Biology'' ''Unit 1'' populated))) =
     Inr \<lparr>s_answer = sampleQuestion, s_provider = ''cache'', s_model = ''cached'',
           s_cached = True, s_questionId = ''65f1a2b3c4d5e6f708192a3b''\<rparr>"
    by simp
  ultimately show ?thesis by (rule conjI)
qed

text \<open>
  C9, as stated, fails: two requests for AP Biology, Unit 1 that both find the cache empty
  and whose upserts overlap in the database each insert a document, and the key has two
  entries.
\<close>

theorem two_entries_for_one_key:
  "reachableConcurrent [] bothInserted \<and>
   cache bothInserted =
     [\<lparr>doc_id = ''65f1a2b3c4d5e6f708192a3c'', doc_apClass = ''AP Biology'',
       doc_unit = ''Unit 1'', doc_question = questionA\<rparr>,
      \<lparr>doc_id = ''65f1a2b3c4d5e6f708192a3d'', doc_apClass = ''AP Biology'',
       doc_unit = ''Unit 1'', doc_question = questionB\<rparr>] \<and>
   \<not> distinct (map docKey (cache bothInserted))"
  using concurrent_bothInserted cache_bothInserted by (simp add: docKey_def)

text \<open>
  C9, amended. In every state the service can reach, upserts that overlap in the database
  included, every cache document holds one generated question for its class and unit,
  whole, and that is what a reader of a key finds. While no two database calls overlap
  there is at most one document for each class and unit. A mutation, from a cold miss or
  from a background refresh, is one \<^const>\<open>generateAndStoreQuestion\<close>: when the provider
  answers and the database accepts the update, a reader of the key afterwards finds one
  document with every field of the new question (and the \<^verbatim>\<open>_id\<close> of the document that was
  there, if one was), a reader of any other key finds what it found before, the number of
  documents grows only if the key had none, and keys that were distinct stay distinct; when
  the provider or the database fails the cache is as it was. A refresh and the start of a
  queued refresh change the cache as that mutation does.
\<close>

theorem cache_mutations_whole:
  assumes "reachableConcurrent ins w"
  shows "(\<forall>d\<in>set (cache w).
            ProviderReplied (doc_apClass d) (doc_unit d) (doc_question d) \<in> set (effects w)) \<and>
         (\<forall>c u d. findOne c u (cache w) = Some d \<longrightarrow>
            doc_apClass d = c \<and> doc_unit d = u \<and>
            ProviderReplied c u (doc_question d) \<in> set (effects w)) \<and>
         (reachable w \<longrightarrow> distinct (map docKey (cache w))) \<and>
         (\<forall>ev c u q. c \<noteq> [] \<longrightarrow> provider_reply ev = Inr q \<longrightarrow> db_update_ok ev \<longrightarrow>
            (\<exists>s w'. generateAndStoreQuestion ev c u w = (Inr s, w') \<and> s_answer s = q \<and>
               reachableConcurrent ins w' \<and>
               findOne c u (cache w') =
                 Some \<lparr>doc_id = s_questionId s, doc_apClass = c, doc_unit = u,
                       doc_question = q\<rparr> \<and>
               s_questionId s =
                 (case findOne c u (cache w) of Some d \<Rightarrow> doc_id d | None \<Rightarrow> objectId ev) \<and>
               (\<forall>c' u'. (c', u') \<noteq> (c, u) \<longrightarrow>
                  findOne c' u' (cache w') = findOne c' u' (cache w)) \<and>
               length (cache w') =
                 (if findOne c u (cache w) = None then Suc (length (cache w))
                  else length (cache w)) \<and>
               (distinct (map docKey (cache w)) \<longrightarrow> distinct (map docKey (cache w'))))) \<and>
         (\<forall>ev c u. c = [] \<or> (\<exists>message. provider_reply ev = Inl message) \<or> \<not> db_update_ok ev \<longrightarrow>
            cache (snd (generateAndStoreQuestion ev c u w)) = cache w) \<and>
         (\<forall>ev c u. db_find_ok ev \<longrightarrow> findOne c u (cache w) = None \<longrightarrow>
            cache (snd (getCachedQuestion ev c u w)) =
              cache (snd (generateAndStoreQuestion ev c u w))) \<and>
         (\<forall>ev c u.
            cache (refreshQuestionBackground ev c u w) =
              cache (snd (generateAndStoreQuestion ev c u w)) \<and>
            reachableConcurrent ins (refreshQuestionBackground ev c u w)) \<and>
         (\<forall>ev c u rest. pending w = (c, u) # rest \<longrightarrow>
            pending (runPending ev w) = rest \<and>
            cache (runPending ev w) = cache (snd (generateAndStoreQuestion ev c u w)) \<and>
            reachableConcurrent ins (runPending ev w))"
proof -
  note whole = concurrent_whole [OF assms, THEN conjunct1]
  have reader: "\<forall>c u d. findOne c u (cache w) = Some d \<longrightarrow>
            doc_apClass d = c \<and> doc_unit d = u \<and>
            ProviderReplied c u (doc_question d) \<in> set (effects w)"
  proof (intro allI impI)
    fix c u :: string and d :: questionDoc
    assume "findOne c u (cache w) = Some d"
    then have "d \<in> set (cache w)" "doc_apClass d = c \<and> doc_unit d = u"
      by (auto simp: findOne_def find_Some_iff)
    with whole show "doc_apClass d = c \<and> doc_unit d = u \<and>
            ProviderReplied c u (doc_question d) \<in> set (effects w)" by auto
  qed
  have one: "reachable w \<longrightarrow> distinct (map docKey (cache w))"
    using reachable_cacheOk by (auto simp: cacheOk_def)
  have mutation: "\<forall>ev c u q. c \<noteq> [] \<longrightarrow> provider_reply ev = Inr q \<longrightarrow> db_update_ok ev \<longrightarrow>
            (\<exists>s w'. generateAndStoreQuestion ev c u w = (Inr s, w') \<and> s_answer s = q \<and>
               reachableConcurrent ins w' \<and>
               findOne c u (cache w') =
                 Some \<lparr>doc_id = s_questionId s, doc_apClass = c, doc_unit = u,
                       doc_question = q\<rparr> \<and>
               s_questionId s =
                 (case findOne c u (cache w) of Some d \<Rightarrow> doc_id d | None \<Rightarrow> objectId ev) \<and>
               (\<forall>c' u'. (c', u') \<noteq> (c, u) \<longrightarrow>
                  findOne c' u' (cache w') = findOne c' u' (cache w)) \<and>
               length (cache w') =
                 (if findOne c u (cache w) = None then Suc (length (cache w))
                  else length (cache w)) \<and>
               (distinct (map docKey (cache w)) \<longrightarrow> distinct (map docKey (cache w'))))"
  proof (intro allI impI)
    fix ev :: outcome and c u :: string and q :: questionData
    assume ok: "c \<noteq> []" "provider_reply ev = Inr q" "db_update_ok ev"
    let ?s = "\<lparr>s_answer = q, s_provider = ''openai'', s_model = selectModelForClass c,
               s_cached = False,
               s_questionId =
                 (case findOne c u (cache w) of Some d \<Rightarrow> doc_id d | None \<Rightarrow> objectId ev)\<rparr>"
    let ?w' = "snd (generateAndStoreQuestion ev c u w)"
    from generateAndStoreQuestion_runs [OF ok, of u w]
    have run': "generateAndStoreQuestion ev c u w = (Inr ?s, ?w')"
      and c': "cache ?w' = snd (findOneAndUpdate (objectId ev) c u q (cache w))"
      by simp_all
    from assms run' have r: "reachableConcurrent ins ?w'"
      by (rule concurrent_generateAndStoreQuestion)
    have f: "findOne c u (cache ?w') =
        Some \<lparr>doc_id = s_questionId ?s, doc_apClass = c, doc_unit = u, doc_question = q\<rparr>"
      by (simp add: c' findOneAndUpdate_reads_new findOneAndUpdate_doc)
    have o: "\<forall>c' u'. (c', u') \<noteq> (c, u) \<longrightarrow>
        findOne c' u' (cache ?w') = findOne c' u' (cache w)"
      by (simp add: c' findOneAndUpdate_reads_other)
    have l: "length (cache ?w') =
        (if findOne c u (cache w) = None then Suc (length (cache w)) else length (cache w))"
      by (simp only: c' findOneAndUpdate_length)
    have d: "distinct (map docKey (cache w)) \<longrightarrow> distinct (map docKey (cache ?w'))"
      by (simp add: c' findOneAndUpdate_distinct)
    from run' r f o l d
    show "\<exists>s w'. generateAndStoreQuestion ev c u w = (Inr s, w') \<and> s_answer s = q \<and>
               reachableConcurrent ins w' \<and>
               findOne c u (cache w') =
                 Some \<lparr>doc_id = s_questionId s, doc_apClass = c, doc_unit = u,
                       doc_question = q\<rparr> \<and>
               s_questionId s =
                 (case findOne c u (cache w) of Some d \<Rightarrow> doc_id d | None \<Rightarrow> objectId ev) \<and>
               (\<forall>c' u'. (c', u') \<noteq> (c, u) \<longrightarrow>
                  findOne c' u' (cache w') = findOne c' u' (cache w)) \<and>
               length (cache w') =
                 (if findOne c u (cache w) = None then Suc (length (cache w))
                  else length (cache w)) \<and>
               (distinct (map docKey (cache w)) \<longrightarrow> distinct (map docKey (cache w')))"
      by (intro exI [of _ ?s] exI [of _ ?w']) simp
  qed
  have failure: "\<forall>ev c u. c = [] \<or> (\<exists>message. provider_reply ev = Inl message) \<or>
            \<not> db_update_ok ev \<longrightarrow>
            cache (snd (generateAndStoreQuestion ev c u w)) = cache w"
    using generateAndStoreQuestion_fails by blast
  have miss: "\<forall>ev c u. db_find_ok ev \<longrightarrow> findOne c u (cache w) = None \<longrightarrow>
            cache (snd (getCachedQuestion ev c u w)) =
              cache (snd (generateAndStoreQuestion ev c u w))"
    by (simp add: getCachedQuestion_def)
  have refresh: "\<forall>ev c u.
            cache (refreshQuestionBackground ev c u w) =
              cache (snd (generateAndStoreQuestion ev c u w)) \<and>
            reachableConcurrent ins (refreshQuestionBackground ev c u w)"
    using concurrent_refreshQuestionBackground [OF assms]
    by (simp add: refreshQuestionBackground_snd)
  have queue: "\<forall>ev c u rest. pending w = (c, u) # rest \<longrightarrow>
            pending (runPending ev w) = rest \<and>
            cache (runPending ev w) = cache (snd (generateAndStoreQuestion ev c u w)) \<and>
            reachableConcurrent ins (runPending ev w)"
  proof (intro allI impI)
    fix ev :: outcome and c u :: string and rest :: "(string \<times> string) list"
    assume p: "pending w = (c, u) # rest"
    then have run: "runPending ev w =
        snd (generateAndStoreQuestion ev c u (w\<lparr>pending := rest\<rparr>))"
      by (simp add: runPending_def refreshQuestionBackground_snd)
    have "pending (runPending ev w) = rest"
      by (simp add: run generateAndStoreQuestion_frame)
    moreover have "cache (runPending ev w) = cache (snd (generateAndStoreQuestion ev c u w))"
      using generateAndStoreQuestion_cache [of "w\<lparr>pending := rest\<rparr>" w ev c u]
      by (simp add: run)
    moreover have "reachableConcurrent ins (runPending ev w)"
      using assms by (rule concurrent_runPending)
    ultimately show "pending (runPending ev w) = rest \<and>
            cache (runPending ev w) = cache (snd (generateAndStoreQuestion ev c u w)) \<and>
            reachableConcurrent ins (runPending ev w)" by simp
  qed
  show ?thesis
    by (intro conjI whole reader one mutation failure miss refresh queue)
qed

text \<open>
  C9 at work after a miss and two hits on AP Biology, Unit 1: one document for the key;
  a mutation whose provider answers leaves its question, whole, in that document, under
  the same \<^verbatim>\<open>_id\<close>; a refresh whose provider fails leaves the cache as it was; the first
  of the two queued refreshes, started, leaves the other queued and the new question in the
  document. And with the two refreshes in flight together, each with its question generated
  and stored, the one that writes last leaves its question, whole, in the only document of
  the key.
\<close>

theorem cache_mutations_whole_witness:
  "reachableConcurrent [] twoHits \<and>
   distinct (map docKey (cache twoHits)) \<and>
   findOne ''AP Biology'' ''Unit 1''
       (cache (snd (generateAndStoreQuestion refreshA ''AP Biology'' ''Unit 1'' twoHits))) =
     Some \<lparr>doc_id = ''65f1a2b3c4d5e6f708192a3b'', doc_apClass = ''AP Biology'',
           doc_unit = ''Unit 1'', doc_question = questionA\<rparr> \<and>
   length (cache (snd (generateAndStoreQuestion refreshA ''AP Biology'' ''Unit 1'' twoHits))) = 1 \<and>
   cache (refreshQuestionBackground providerDown ''AP Biology'' ''Unit 1'' twoHits) =
     cache twoHits \<and>
   pending (runPending refreshA twoHits) = [(''AP Biology'', ''Unit 1'')] \<and>
   findOne ''AP Biology'' ''Unit 1'' (cache (runPending refreshA twoHits)) =
     Some \<lparr>doc_id = ''65f1a2b3c4d5e6f708192a3b'', doc_apClass = ''AP Biology'',
           doc_unit = ''Unit 1'', doc_question = questionA\<rparr> \<and>
   reachable interleaved \<and>
   cache interleaved =
     [\<lparr>doc_id = ''65f1a2b3c4d5e6f708192a3b'', doc_apClass = ''AP Biology'',
       doc_unit = ''Unit 1'', doc_question = questionA\<rparr>] \<and>
   distinct (map docKey (cache interleaved)) \<and>
   ProviderReplied ''AP Biology'' ''Unit 1'' questionA \<in> set (effects interleaved)"
proof -
  note both = cache_mutations_whole [OF reachable_concurrent [OF reachable_interleaved]]
  from both [THEN conjunct2, THEN conjunct2, THEN conjunct1, rule_format,
    OF reachable_interleaved]
  have one_i: "distinct (map docKey (cache interleaved))" .
  from both [THEN conjunct1] have whole_i:
    "ProviderReplied ''AP Biology'' ''Unit 1'' questionA \<in> set (effects interleaved)"
    by (simp add: cache_interleaved)
  have r: "reachableConcurrent [] twoHits"
    by (rule reachable_concurrent [OF reachable_twoHits])
  note c9 = cache_mutations_whole [OF r]
  note rest3 = c9 [THEN conjunct2, THEN conjunct2]
  note rest4 = rest3 [THEN conjunct2]
  note rest5 = rest4 [THEN conjunct2]
  note rest7 = rest5 [THEN conjunct2, THEN conjunct2]
  have a: "''AP Biology'' \<noteq> []" "provider_reply refreshA = Inr questionA"
    "db_update_ok refreshA"
    and down: "''AP Biology'' = [] \<or> (\<exists>message. provider_reply providerDown = Inl message) \<or>
      \<not> db_update_ok providerDown"
    by (simp_all add: refreshA_def providerDown_def allUp_def)
  have found: "findOne ''AP Biology'' ''Unit 1'' (cache twoHits) =
     Some \<lparr>doc_id = ''65f1a2b3c4d5e6f708192a3b'', doc_apClass = ''AP Biology'',
           doc_unit = ''Unit 1'', doc_question = sampleQuestion\<rparr>"
    by (simp only: cache_twoHits populated_findOne)
  have len: "length (cache twoHits) = 1" by (simp add: cache_twoHits populated_world)
  from rest3 [THEN conjunct1, rule_format, OF reachable_twoHits]
  have one: "distinct (map docKey (cache twoHits))" .
  from rest4 [THEN conjunct1, rule_format, OF a, of "''Unit 1''"] obtain s w' where
    run: "generateAndStoreQuestion refreshA ''AP Biology'' ''Unit 1'' twoHits = (Inr s, w')"
    and f: "findOne ''AP Biology'' ''Unit 1'' (cache w') =
      Some \<lparr>doc_id = s_questionId s, doc_apClass = ''AP Biology'', doc_unit = ''Unit 1'',
            doc_question = questionA\<rparr>"
    and i: "s_questionId s =
      (case findOne ''AP Biology'' ''Unit 1'' (cache twoHits) of
         Some d \<Rightarrow> doc_id d | None \<Rightarrow> objectId refreshA)"
    and l: "length (cache w') =
      (if findOne ''AP Biology'' ''Unit 1'' (cache twoHits) = None
       then Suc (length (cache twoHits)) else length (cache twoHits))"
    by (elim exE conjE)
  from i have i': "s_questionId s = ''65f1a2b3c4d5e6f708192a3b''" by (simp only: found option.case questionDoc.simps)
  from l have l': "length (cache w') = 1" by (simp only: found len option.distinct if_False)
  from run have w': "snd (generateAndStoreQuestion refreshA ''AP Biology'' ''Unit 1'' twoHits) = w'"
    by simp
  from rest5 [THEN conjunct1, rule_format, OF down, of "''Unit 1''"]
  have fail:
    "cache (snd (generateAndStoreQuestion providerDown ''AP Biology'' ''Unit 1'' twoHits)) =
       cache twoHits" .
  from rest7 [THEN conjunct1, rule_format, THEN conjunct1, of providerDown "''AP Biology''" "''Unit 1''"]
  have "cache (refreshQuestionBackground providerDown ''AP Biology'' ''Unit 1'' twoHits) =
      cache (snd (generateAndStoreQuestion providerDown ''AP Biology'' ''Unit 1'' twoHits))" .
  with fail have stale:
    "cache (refreshQuestionBackground providerDown ''AP Biology'' ''Unit 1'' twoHits) =
       cache twoHits" by simp
  from rest7 [THEN conjunct2, rule_format, OF pending_twoHits, of refreshA]
  have q: "pending (runPending refreshA twoHits) = [(''AP Biology'', ''Unit 1'')]"
    "cache (runPending refreshA twoHits) =
       cache (snd (generateAndStoreQuestion refreshA ''AP Biology'' ''Unit 1'' twoHits))"
    by simp_all
  show ?thesis
    by (intro conjI r one reachable_interleaved cache_interleaved one_i whole_i)
      (simp_all only: q w' f i' l' stale)
qed

end
